theory Spec2Isabelle
  imports Complex_Main "HOL-Library.AList"
begin

chapter \<open>The program\<close>

section \<open>Text and characters\<close>

text \<open>
  A Python \<^verbatim>\<open>str\<close> is a sequence of Unicode code points. A character is modelled
  by its code point, a string by the list of its code points, so that \<open>length\<close>
  counts what Python's \<^verbatim>\<open>len\<close> counts. Numbers of the page geometry (coordinates,
  font sizes, pitches) are exact rationals.
\<close>

type_synonym uchar = nat
type_synonym ustring = "uchar list"

definition NEWLINE :: uchar where
  "NEWLINE = 0x0A"

text \<open>
  \<^verbatim>\<open>LEADING_PROHIBITED_CHARS\<close>: ideographic full stop and comma, the closing corner
  brackets U+300D and U+300F, \<^verbatim>\<open>)\<close>, the full-width \<^verbatim>\<open>)\<close> U+FF09, \<^verbatim>\<open>]\<close> and \<^verbatim>\<open>}\<close>.
\<close>

definition LEADING_PROHIBITED_CHARS :: "uchar set" where
  "LEADING_PROHIBITED_CHARS = {0x3002, 0x3001, 0x300D, 0x300F, 0x29, 0xFF09, 0x5D, 0x7D}"

section \<open>The wrap counter\<close>

text \<open>
  The body of the loop of \<^verbatim>\<open>calculate_wrap_count\<close>: the state is the pair
  \<open>(lines, char_count)\<close>, \<open>n\<close> is \<^verbatim>\<open>len(text_str)\<close>, and the loop runs over
  \<^verbatim>\<open>enumerate(text_str)\<close>.
\<close>

definition wrap_count_step :: "int \<Rightarrow> nat \<Rightarrow> int \<times> int \<Rightarrow> nat \<times> uchar \<Rightarrow> int \<times> int" where
  "wrap_count_step max_chars n st ic =
    (let lines = fst st; char_count = snd st; i = fst ic; char = snd ic in
     if char = NEWLINE then (lines + 1, 0)
     else
       let is_overflow = (char_count \<ge> max_chars);
           is_hanging = (is_overflow \<and> char \<in> LEADING_PROHIBITED_CHARS);
           st1 = (if is_overflow \<and> \<not> is_hanging then (lines + 1, 0) else (lines, char_count))
       in if is_hanging
          then (if int i < int n - 1 then (fst st1 + 1, 0) else st1)
          else (fst st1, snd st1 + 1))"

definition calculate_wrap_count :: "ustring \<Rightarrow> int \<Rightarrow> int" where
  "calculate_wrap_count text max_chars =
    (if text = [] then 0
     else fst (foldl (wrap_count_step max_chars (length text)) (1, 0) (enumerate 0 text)) - 1)"

text \<open>A string with no explicit line break and no line-leading-prohibited character.\<close>

definition plain_text :: "ustring \<Rightarrow> bool" where
  "plain_text text = (\<forall>c \<in> set text. c \<noteq> NEWLINE \<and> c \<notin> LEADING_PROHIBITED_CHARS)"

section \<open>The canvas\<close>

text \<open>
  The drawing routines write to a ReportLab canvas. The canvas is modelled by the log of
  the calls a routine makes on it, in order; \<open>CodeAppend\<close> is an append to the canvas's
  raw operator list (\<^verbatim>\<open>canvas._code.append\<close>), which is how the text render mode
  \<^verbatim>\<open>2 Tr\<close> (fill and stroke) and \<^verbatim>\<open>0 Tr\<close> (fill only) are switched.
\<close>

datatype canvas_op =
    SetFont string rat
  | SetLineWidth rat
  | SetStrokeColorRGB rat rat rat
  | CodeAppend string
  | SaveState
  | RestoreState
  | Translate rat rat
  | Rotate rat
  | DrawString rat rat ustring

text \<open>An entry of a character adjustment table; the key \<^verbatim>\<open>angle\<close> is optional.\<close>

record adj =
  x_offset :: rat
  y_offset :: rat
  angle :: "rat option"

type_synonym adjustments = "uchar \<rightharpoonup> adj"

definition USE_BOLD :: bool where
  "USE_BOLD = True"

definition BOLD_WIDTH_RATIO :: rat where
  "BOLD_WIDTH_RATIO = 5 / 100"

definition DEFAULT_FONT :: string where
  "DEFAULT_FONT = ''MSMincho''"

definition SPECIAL_CHARS_FONT_MAP :: "uchar \<rightharpoonup> string" where
  "SPECIAL_CHARS_FONT_MAP = map_of [(0x5D57, ''MSMincho''), (0x4FFB, ''MSMincho'')]"

definition HANGING_PUNCTUATION_ADJUSTMENTS :: adjustments where
  "HANGING_PUNCTUATION_ADJUSTMENTS = map_of
   [(0x3002, \<lparr>x_offset = 8, y_offset = (- 2), angle = None\<rparr>),
    (0x3001, \<lparr>x_offset = 8, y_offset = (- 2), angle = None\<rparr>),
    (0x300D, \<lparr>x_offset = 3, y_offset = (- 5), angle = None\<rparr>),
    (0x300F, \<lparr>x_offset = 2, y_offset = (- 5), angle = None\<rparr>),
    (0x29, \<lparr>x_offset = 2, y_offset = (- 5), angle = None\<rparr>),
    (0xFF09, \<lparr>x_offset = 4, y_offset = 0, angle = None\<rparr>),
    (0x5D, \<lparr>x_offset = 4, y_offset = 0, angle = None\<rparr>),
    (0x7D, \<lparr>x_offset = 4, y_offset = 0, angle = None\<rparr>)]"

definition PUNCTUATION_ADJUSTMENTS :: adjustments where
  "PUNCTUATION_ADJUSTMENTS = map_of
   [(0x3002, \<lparr>x_offset = 7, y_offset = 5, angle = None\<rparr>),
    (0x3001, \<lparr>x_offset = 7, y_offset = 5, angle = None\<rparr>),
    (0x3063, \<lparr>x_offset = 1, y_offset = 0, angle = None\<rparr>),
    (0x3083, \<lparr>x_offset = 1, y_offset = 0, angle = None\<rparr>),
    (0x3085, \<lparr>x_offset = 1, y_offset = 0, angle = None\<rparr>),
    (0x3087, \<lparr>x_offset = 1, y_offset = 0, angle = None\<rparr>),
    (0x3041, \<lparr>x_offset = 1, y_offset = 0, angle = None\<rparr>),
    (0x3043, \<lparr>x_offset = 1, y_offset = 0, angle = None\<rparr>),
    (0x3045, \<lparr>x_offset = 1, y_offset = 0, angle = None\<rparr>),
    (0x3047, \<lparr>x_offset = 1, y_offset = 0, angle = None\<rparr>),
    (0x3049, \<lparr>x_offset = 1, y_offset = 0, angle = None\<rparr>),
    (0x30FC, \<lparr>x_offset = 4, y_offset = 8, angle = None\<rparr>),
    (0x28, \<lparr>x_offset = 9 / 2, y_offset = 10, angle = None\<rparr>),
    (0x29, \<lparr>x_offset = 9 / 2, y_offset = 3, angle = None\<rparr>),
    (0xFF08, \<lparr>x_offset = 4, y_offset = 25 / 2, angle = None\<rparr>),
    (0xFF09, \<lparr>x_offset = 4, y_offset = 15 / 2, angle = None\<rparr>),
    (0x5B, \<lparr>x_offset = 3, y_offset = (- 5), angle = None\<rparr>),
    (0x5D, \<lparr>x_offset = 3, y_offset = (- 5), angle = None\<rparr>),
    (0x7B, \<lparr>x_offset = 3, y_offset = (- 5), angle = None\<rparr>),
    (0x7D, \<lparr>x_offset = 3, y_offset = (- 5), angle = None\<rparr>),
    (0x300C, \<lparr>x_offset = 5, y_offset = 12, angle = None\<rparr>),
    (0x300D, \<lparr>x_offset = 3, y_offset = 4, angle = None\<rparr>),
    (0x300E, \<lparr>x_offset = 3, y_offset = (- 5), angle = None\<rparr>),
    (0x300F, \<lparr>x_offset = 3, y_offset = (- 5), angle = None\<rparr>),
    (0x2D, \<lparr>x_offset = 12, y_offset = 6, angle = None\<rparr>),
    (0x2192, \<lparr>x_offset = 23 / 2, y_offset = 8, angle = None\<rparr>),
    (0x2190, \<lparr>x_offset = 23 / 2, y_offset = 8, angle = None\<rparr>),
    (0x2191, \<lparr>x_offset = 23 / 2, y_offset = 8, angle = None\<rparr>),
    (0x2193, \<lparr>x_offset = 23 / 2, y_offset = 8, angle = None\<rparr>),
    (0x61, \<lparr>x_offset = 4, y_offset = 7, angle = None\<rparr>),
    (0x62, \<lparr>x_offset = 4, y_offset = 7, angle = None\<rparr>),
    (0x63, \<lparr>x_offset = 4, y_offset = 7, angle = None\<rparr>),
    (0x64, \<lparr>x_offset = 4, y_offset = 7, angle = None\<rparr>),
    (0x65, \<lparr>x_offset = 4, y_offset = 7, angle = None\<rparr>),
    (0x66, \<lparr>x_offset = 4, y_offset = 7, angle = None\<rparr>),
    (0x67, \<lparr>x_offset = 4, y_offset = 7, angle = None\<rparr>),
    (0x68, \<lparr>x_offset = 4, y_offset = 7, angle = None\<rparr>),
    (0x69, \<lparr>x_offset = 4, y_offset = 7, angle = None\<rparr>),
    (0x6A, \<lparr>x_offset = 4, y_offset = 7, angle = None\<rparr>),
    (0x6B, \<lparr>x_offset = 4, y_offset = 7, angle = None\<rparr>),
    (0x6C, \<lparr>x_offset = 4, y_offset = 7, angle = None\<rparr>),
    (0x6D, \<lparr>x_offset = 4, y_offset = 7, angle = None\<rparr>),
    (0x6E, \<lparr>x_offset = 4, y_offset = 7, angle = None\<rparr>),
    (0x6F, \<lparr>x_offset = 4, y_offset = 7, angle = None\<rparr>),
    (0x70, \<lparr>x_offset = 4, y_offset = 7, angle = None\<rparr>),
    (0x71, \<lparr>x_offset = 4, y_offset = 7, angle = None\<rparr>),
    (0x72, \<lparr>x_offset = 4, y_offset = 7, angle = None\<rparr>),
    (0x73, \<lparr>x_offset = 4, y_offset = 7, angle = None\<rparr>),
    (0x74, \<lparr>x_offset = 4, y_offset = 7, angle = None\<rparr>),
    (0x75, \<lparr>x_offset = 4, y_offset = 7, angle = None\<rparr>),
    (0x76, \<lparr>x_offset = 4, y_offset = 7, angle = None\<rparr>),
    (0x77, \<lparr>x_offset = 4, y_offset = 7, angle = None\<rparr>),
    (0x78, \<lparr>x_offset = 4, y_offset = 7, angle = None\<rparr>),
    (0x79, \<lparr>x_offset = 4, y_offset = 7, angle = None\<rparr>),
    (0x7A, \<lparr>x_offset = 4, y_offset = 7, angle = None\<rparr>),
    (0x41, \<lparr>x_offset = 4, y_offset = 7, angle = None\<rparr>),
    (0x42, \<lparr>x_offset = 4, y_offset = 7, angle = None\<rparr>),
    (0x43, \<lparr>x_offset = 4, y_offset = 7, angle = None\<rparr>),
    (0x44, \<lparr>x_offset = 4, y_offset = 7, angle = None\<rparr>),
    (0x45, \<lparr>x_offset = 4, y_offset = 7, angle = None\<rparr>),
    (0x46, \<lparr>x_offset = 4, y_offset = 7, angle = None\<rparr>),
    (0x47, \<lparr>x_offset = 4, y_offset = 7, angle = None\<rparr>),
    (0x48, \<lparr>x_offset = 4, y_offset = 7, angle = None\<rparr>),
    (0x49, \<lparr>x_offset = 4, y_offset = 7, angle = None\<rparr>),
    (0x4A, \<lparr>x_offset = 4, y_offset = 7, angle = None\<rparr>),
    (0x4B, \<lparr>x_offset = 4, y_offset = 7, angle = None\<rparr>),
    (0x4C, \<lparr>x_offset = 4, y_offset = 7, angle = None\<rparr>),
    (0x4D, \<lparr>x_offset = 4, y_offset = 7, angle = None\<rparr>),
    (0x4E, \<lparr>x_offset = 4, y_offset = 7, angle = None\<rparr>),
    (0x4F, \<lparr>x_offset = 4, y_offset = 7, angle = None\<rparr>),
    (0x50, \<lparr>x_offset = 4, y_offset = 7, angle = None\<rparr>),
    (0x51, \<lparr>x_offset = 4, y_offset = 7, angle = None\<rparr>),
    (0x52, \<lparr>x_offset = 4, y_offset = 7, angle = None\<rparr>),
    (0x53, \<lparr>x_offset = 4, y_offset = 7, angle = None\<rparr>),
    (0x54, \<lparr>x_offset = 4, y_offset = 7, angle = None\<rparr>),
    (0x55, \<lparr>x_offset = 4, y_offset = 7, angle = None\<rparr>),
    (0x56, \<lparr>x_offset = 4, y_offset = 7, angle = None\<rparr>),
    (0x57, \<lparr>x_offset = 4, y_offset = 7, angle = None\<rparr>),
    (0x58, \<lparr>x_offset = 4, y_offset = 7, angle = None\<rparr>),
    (0x59, \<lparr>x_offset = 4, y_offset = 7, angle = None\<rparr>),
    (0x5A, \<lparr>x_offset = 4, y_offset = 7, angle = None\<rparr>),
    (0x30, \<lparr>x_offset = 5 / 2, y_offset = 0, angle = None\<rparr>),
    (0x31, \<lparr>x_offset = 5 / 2, y_offset = 0, angle = None\<rparr>),
    (0x32, \<lparr>x_offset = 5 / 2, y_offset = 0, angle = None\<rparr>),
    (0x33, \<lparr>x_offset = 5 / 2, y_offset = 0, angle = None\<rparr>),
    (0x34, \<lparr>x_offset = 5 / 2, y_offset = 0, angle = None\<rparr>),
    (0x35, \<lparr>x_offset = 5 / 2, y_offset = 0, angle = None\<rparr>),
    (0x36, \<lparr>x_offset = 5 / 2, y_offset = 0, angle = None\<rparr>),
    (0x37, \<lparr>x_offset = 5 / 2, y_offset = 0, angle = None\<rparr>),
    (0x38, \<lparr>x_offset = 5 / 2, y_offset = 0, angle = None\<rparr>),
    (0x39, \<lparr>x_offset = 5 / 2, y_offset = 0, angle = None\<rparr>),
    (0x21, \<lparr>x_offset = 5 / 2, y_offset = 0, angle = None\<rparr>),
    (0xFF21, \<lparr>x_offset = 7 / 2, y_offset = 9, angle = None\<rparr>),
    (0xFF22, \<lparr>x_offset = 7 / 2, y_offset = 9, angle = None\<rparr>),
    (0xFF23, \<lparr>x_offset = 7 / 2, y_offset = 9, angle = None\<rparr>),
    (0xFF24, \<lparr>x_offset = 7 / 2, y_offset = 9, angle = None\<rparr>),
    (0xFF25, \<lparr>x_offset = 7 / 2, y_offset = 9, angle = None\<rparr>),
    (0xFF26, \<lparr>x_offset = 7 / 2, y_offset = 9, angle = None\<rparr>),
    (0xFF27, \<lparr>x_offset = 7 / 2, y_offset = 9, angle = None\<rparr>),
    (0xFF28, \<lparr>x_offset = 7 / 2, y_offset = 9, angle = None\<rparr>),
    (0xFF29, \<lparr>x_offset = 7 / 2, y_offset = 9, angle = None\<rparr>),
    (0xFF2A, \<lparr>x_offset = 7 / 2, y_offset = 9, angle = None\<rparr>),
    (0xFF2B, \<lparr>x_offset = 7 / 2, y_offset = 9, angle = None\<rparr>),
    (0xFF2C, \<lparr>x_offset = 7 / 2, y_offset = 9, angle = None\<rparr>),
    (0xFF2D, \<lparr>x_offset = 7 / 2, y_offset = 9, angle = None\<rparr>),
    (0xFF2E, \<lparr>x_offset = 7 / 2, y_offset = 9, angle = None\<rparr>),
    (0xFF2F, \<lparr>x_offset = 7 / 2, y_offset = 9, angle = None\<rparr>),
    (0xFF30, \<lparr>x_offset = 7 / 2, y_offset = 9, angle = None\<rparr>),
    (0xFF31, \<lparr>x_offset = 7 / 2, y_offset = 9, angle = None\<rparr>),
    (0xFF32, \<lparr>x_offset = 7 / 2, y_offset = 9, angle = None\<rparr>),
    (0xFF33, \<lparr>x_offset = 7 / 2, y_offset = 9, angle = None\<rparr>),
    (0xFF34, \<lparr>x_offset = 7 / 2, y_offset = 9, angle = None\<rparr>),
    (0xFF35, \<lparr>x_offset = 7 / 2, y_offset = 9, angle = None\<rparr>),
    (0xFF36, \<lparr>x_offset = 7 / 2, y_offset = 9, angle = None\<rparr>),
    (0xFF37, \<lparr>x_offset = 7 / 2, y_offset = 9, angle = None\<rparr>),
    (0xFF38, \<lparr>x_offset = 7 / 2, y_offset = 9, angle = None\<rparr>),
    (0xFF39, \<lparr>x_offset = 7 / 2, y_offset = 9, angle = None\<rparr>),
    (0xFF3A, \<lparr>x_offset = 7 / 2, y_offset = 9, angle = None\<rparr>),
    (0xFF41, \<lparr>x_offset = 7 / 2, y_offset = 9, angle = None\<rparr>),
    (0xFF42, \<lparr>x_offset = 7 / 2, y_offset = 9, angle = None\<rparr>),
    (0xFF43, \<lparr>x_offset = 7 / 2, y_offset = 9, angle = None\<rparr>),
    (0xFF44, \<lparr>x_offset = 7 / 2, y_offset = 9, angle = None\<rparr>),
    (0xFF45, \<lparr>x_offset = 7 / 2, y_offset = 9, angle = None\<rparr>),
    (0xFF46, \<lparr>x_offset = 7 / 2, y_offset = 9, angle = None\<rparr>),
    (0xFF47, \<lparr>x_offset = 7 / 2, y_offset = 9, angle = None\<rparr>),
    (0xFF48, \<lparr>x_offset = 7 / 2, y_offset = 9, angle = None\<rparr>),
    (0xFF49, \<lparr>x_offset = 7 / 2, y_offset = 9, angle = None\<rparr>),
    (0xFF4A, \<lparr>x_offset = 7 / 2, y_offset = 9, angle = None\<rparr>),
    (0xFF4B, \<lparr>x_offset = 7 / 2, y_offset = 9, angle = None\<rparr>),
    (0xFF4C, \<lparr>x_offset = 7 / 2, y_offset = 9, angle = None\<rparr>),
    (0xFF4D, \<lparr>x_offset = 7 / 2, y_offset = 9, angle = None\<rparr>),
    (0xFF4E, \<lparr>x_offset = 7 / 2, y_offset = 9, angle = None\<rparr>),
    (0xFF4F, \<lparr>x_offset = 7 / 2, y_offset = 9, angle = None\<rparr>),
    (0xFF50, \<lparr>x_offset = 7 / 2, y_offset = 9, angle = None\<rparr>),
    (0xFF51, \<lparr>x_offset = 7 / 2, y_offset = 9, angle = None\<rparr>),
    (0xFF52, \<lparr>x_offset = 7 / 2, y_offset = 9, angle = None\<rparr>),
    (0xFF53, \<lparr>x_offset = 7 / 2, y_offset = 9, angle = None\<rparr>),
    (0xFF54, \<lparr>x_offset = 7 / 2, y_offset = 9, angle = None\<rparr>),
    (0xFF55, \<lparr>x_offset = 7 / 2, y_offset = 9, angle = None\<rparr>),
    (0xFF56, \<lparr>x_offset = 7 / 2, y_offset = 9, angle = None\<rparr>),
    (0xFF57, \<lparr>x_offset = 7 / 2, y_offset = 9, angle = None\<rparr>),
    (0xFF58, \<lparr>x_offset = 7 / 2, y_offset = 9, angle = None\<rparr>),
    (0xFF59, \<lparr>x_offset = 7 / 2, y_offset = 9, angle = None\<rparr>),
    (0xFF5A, \<lparr>x_offset = 7 / 2, y_offset = 9, angle = None\<rparr>),
    (0xFF0C, \<lparr>x_offset = 7, y_offset = 5, angle = None\<rparr>)]"

definition ROTATED_CHARS :: "uchar set" where
  "ROTATED_CHARS = set
   [0x28, 0x29, 0xFF08, 0xFF09, 0x5B, 0x5D, 0x7B, 0x7D, 0x300C, 0x300D, 0x300E, 0x300F, 0x30FC,
    0x2D, 0x2192, 0x2190, 0x2191, 0x2193, 0xFF1C, 0xFF1E, 0x3008, 0x3009, 0xFF5E, 0x21, 0x61,
    0x62, 0x63, 0x64, 0x65, 0x66, 0x67, 0x68, 0x69, 0x6A, 0x6B, 0x6C, 0x6D, 0x6E, 0x6F, 0x70,
    0x71, 0x72, 0x73, 0x74, 0x75, 0x76, 0x77, 0x78, 0x79, 0x7A, 0x41, 0x42, 0x43, 0x44, 0x45,
    0x46, 0x47, 0x48, 0x49, 0x4A, 0x4B, 0x4C, 0x4D, 0x4E, 0x4F, 0x50, 0x51, 0x52, 0x53, 0x54,
    0x55, 0x56, 0x57, 0x58, 0x59, 0x5A, 0xFF21, 0xFF22, 0xFF23, 0xFF24, 0xFF25, 0xFF26, 0xFF27,
    0xFF28, 0xFF29, 0xFF2A, 0xFF2B, 0xFF2C, 0xFF2D, 0xFF2E, 0xFF2F, 0xFF30, 0xFF31, 0xFF32,
    0xFF33, 0xFF34, 0xFF35, 0xFF36, 0xFF37, 0xFF38, 0xFF39, 0xFF3A, 0xFF41, 0xFF42, 0xFF43,
    0xFF44, 0xFF45, 0xFF46, 0xFF47, 0xFF48, 0xFF49, 0xFF4A, 0xFF4B, 0xFF4C, 0xFF4D, 0xFF4E,
    0xFF4F, 0xFF50, 0xFF51, 0xFF52, 0xFF53, 0xFF54, 0xFF55, 0xFF56, 0xFF57, 0xFF58, 0xFF59,
    0xFF5A]"

text \<open>\<^verbatim>\<open>DEPARTMENT_YEAR_ADJUSTMENTS\<close>, the table of the department and year field.\<close>

definition DEPARTMENT_YEAR_ADJUSTMENTS :: adjustments where
  "DEPARTMENT_YEAR_ADJUSTMENTS = map_of
   [(0x3002, \<lparr>x_offset = 6, y_offset = 4, angle = None\<rparr>),
    (0x3001, \<lparr>x_offset = 6, y_offset = 4, angle = None\<rparr>),
    (0x30, \<lparr>x_offset = 3 / 2, y_offset = 0, angle = None\<rparr>),
    (0x31, \<lparr>x_offset = 3 / 2, y_offset = 0, angle = None\<rparr>),
    (0x32, \<lparr>x_offset = 3 / 2, y_offset = 0, angle = None\<rparr>),
    (0x33, \<lparr>x_offset = 3 / 2, y_offset = 0, angle = None\<rparr>),
    (0x34, \<lparr>x_offset = 3 / 2, y_offset = 0, angle = None\<rparr>),
    (0x35, \<lparr>x_offset = 3 / 2, y_offset = 0, angle = None\<rparr>),
    (0x36, \<lparr>x_offset = 3 / 2, y_offset = 0, angle = None\<rparr>),
    (0x37, \<lparr>x_offset = 3 / 2, y_offset = 0, angle = None\<rparr>),
    (0x38, \<lparr>x_offset = 3 / 2, y_offset = 0, angle = None\<rparr>),
    (0x39, \<lparr>x_offset = 3 / 2, y_offset = 0, angle = None\<rparr>),
    (0x5B66, \<lparr>x_offset = 0, y_offset = 0, angle = None\<rparr>),
    (0x90E8, \<lparr>x_offset = 0, y_offset = 0, angle = None\<rparr>),
    (0x5E74, \<lparr>x_offset = 0, y_offset = 0, angle = None\<rparr>),
    (0x751F, \<lparr>x_offset = 0, y_offset = 0, angle = None\<rparr>)]"

text \<open>\<^verbatim>\<open>d.get(k, default)\<close> of a Python dictionary.\<close>

definition dict_get :: "('k \<rightharpoonup> 'v) \<Rightarrow> 'k \<Rightarrow> 'v \<Rightarrow> 'v" where
  "dict_get d k dflt = (case d k of Some v \<Rightarrow> v | None \<Rightarrow> dflt)"

text \<open>The default entry \<^verbatim>\<open>{'x_offset': 0, 'y_offset': 0}\<close>.\<close>

definition no_adjustment :: adj where
  "no_adjustment = \<lparr>x_offset = 0, y_offset = 0, angle = None\<rparr>"

text \<open>The two blocks guarded by \<^verbatim>\<open>if USE_BOLD\<close>, before and after a draw.\<close>

definition bold_on :: "rat \<Rightarrow> canvas_op list" where
  "bold_on font_size =
    (if USE_BOLD
     then [SetLineWidth (font_size * BOLD_WIDTH_RATIO), SetStrokeColorRGB 0 0 0, CodeAppend ''2 Tr'']
     else [])"

definition bold_off :: "canvas_op list" where
  "bold_off = (if USE_BOLD then [CodeAppend ''0 Tr''] else [])"

text \<open>
  The draw of one character of vertical text: rotated by the angle of its table entry,
  else by 270 degrees when it is in \<^verbatim>\<open>ROTATED_CHARS\<close>, else upright.
\<close>

definition rotated_glyph :: "rat \<Rightarrow> rat \<Rightarrow> uchar \<Rightarrow> rat \<Rightarrow> rat \<Rightarrow> canvas_op list" where
  "rotated_glyph font_size rotation_angle char draw_x draw_y =
    [SaveState, Translate draw_x draw_y, Rotate rotation_angle,
     DrawString 0 (- font_size / 4) [char], RestoreState]"

definition draw_glyph :: "rat \<Rightarrow> adj \<Rightarrow> uchar \<Rightarrow> rat \<Rightarrow> rat \<Rightarrow> canvas_op list" where
  "draw_glyph font_size a char draw_x draw_y =
    (case angle a of
       Some rotation_angle \<Rightarrow> rotated_glyph font_size rotation_angle char draw_x draw_y
     | None \<Rightarrow>
         if char \<in> ROTATED_CHARS then rotated_glyph font_size 270 char draw_x draw_y
         else [DrawString draw_x draw_y [char]])"

section \<open>Vertical text with wrapping\<close>

text \<open>The loop variables of \<^verbatim>\<open>draw_vertical_text_with_wrap\<close>.\<close>

record vstate =
  current_x :: rat
  current_y :: rat
  char_count :: int

definition next_column :: "rat \<Rightarrow> rat \<Rightarrow> vstate \<Rightarrow> vstate" where
  "next_column y line_spacing st =
    \<lparr>current_x = current_x st - line_spacing, current_y = y, char_count = 0\<rparr>"

text \<open>
  One iteration of the loop over the characters: the calls made on the canvas and the
  loop variables after the iteration.
\<close>

definition vwrap_step ::
  "rat \<Rightarrow> rat \<Rightarrow> rat \<Rightarrow> int \<Rightarrow> rat \<Rightarrow> adjustments \<Rightarrow> vstate \<Rightarrow> uchar \<Rightarrow> canvas_op list \<times> vstate" where
  "vwrap_step y font_size char_spacing max_chars_per_line line_spacing adjustments st char =
    (if char = NEWLINE then ([], next_column y line_spacing st)
     else
       let is_overflow = (char_count st \<ge> max_chars_per_line);
           is_hanging = (is_overflow \<and> char \<in> LEADING_PROHIBITED_CHARS);
           st1 = (if is_overflow \<and> \<not> is_hanging then next_column y line_spacing st else st);
           a = (if is_hanging \<and> char \<in> dom HANGING_PUNCTUATION_ADJUSTMENTS
                then the (HANGING_PUNCTUATION_ADJUSTMENTS char)
                else dict_get adjustments char no_adjustment);
           draw_x = current_x st1 + x_offset a;
           draw_y0 = current_y st1 + y_offset a;
           draw_y = (if is_hanging then draw_y0 + font_size * char_spacing else draw_y0);
           target_font = dict_get SPECIAL_CHARS_FONT_MAP char DEFAULT_FONT;
           ops = [SetFont target_font font_size] @ bold_on font_size
                 @ draw_glyph font_size a char draw_x draw_y @ bold_off;
           st2 = (if is_hanging then next_column y line_spacing st1
                  else st1\<lparr>current_y := current_y st1 - font_size * char_spacing,
                           char_count := char_count st1 + 1\<rparr>)
       in (ops, st2))"

fun vwrap_loop ::
  "rat \<Rightarrow> rat \<Rightarrow> rat \<Rightarrow> int \<Rightarrow> rat \<Rightarrow> adjustments \<Rightarrow> vstate \<Rightarrow> ustring \<Rightarrow> canvas_op list" where
  "vwrap_loop y fs cs mx ls A st [] = []"
| "vwrap_loop y fs cs mx ls A st (char # rest) =
     fst (vwrap_step y fs cs mx ls A st char)
     @ vwrap_loop y fs cs mx ls A (snd (vwrap_step y fs cs mx ls A st char)) rest"

text \<open>The loop variables after the characters of a prefix of the text.\<close>

definition vwrap_state ::
  "rat \<Rightarrow> rat \<Rightarrow> rat \<Rightarrow> int \<Rightarrow> rat \<Rightarrow> adjustments \<Rightarrow> vstate \<Rightarrow> ustring \<Rightarrow> vstate" where
  "vwrap_state y fs cs mx ls A st prefix = foldl (\<lambda>s c. snd (vwrap_step y fs cs mx ls A s c)) st prefix"

definition or_default :: "adjustments option \<Rightarrow> adjustments" where
  "or_default adjustments = (case adjustments of None \<Rightarrow> PUNCTUATION_ADJUSTMENTS | Some A \<Rightarrow> A)"

definition vwrap_init :: "rat \<Rightarrow> rat \<Rightarrow> vstate" where
  "vwrap_init x y = \<lparr>current_x = x, current_y = y, char_count = 0\<rparr>"

definition draw_vertical_text_with_wrap ::
  "ustring \<Rightarrow> rat \<Rightarrow> rat \<Rightarrow> rat \<Rightarrow> rat \<Rightarrow> int \<Rightarrow> rat \<Rightarrow> adjustments option \<Rightarrow> canvas_op list" where
  "draw_vertical_text_with_wrap text x y font_size char_spacing max_chars_per_line line_spacing adjustments =
    SetFont DEFAULT_FONT font_size
    # vwrap_loop y font_size char_spacing max_chars_per_line line_spacing (or_default adjustments)
        (vwrap_init x y) text"

text \<open>
  The table entry used for a hanging character: its entry in
  \<^verbatim>\<open>HANGING_PUNCTUATION_ADJUSTMENTS\<close> when there is one, else what the field's own
  table gives.
\<close>

definition hanging_adj :: "adjustments \<Rightarrow> uchar \<Rightarrow> adj" where
  "hanging_adj A ch =
    (case HANGING_PUNCTUATION_ADJUSTMENTS ch of Some h \<Rightarrow> h | None \<Rightarrow> dict_get A ch no_adjustment)"

section \<open>Vertical text without wrapping\<close>

definition vertical_char ::
  "rat \<Rightarrow> rat \<Rightarrow> rat \<Rightarrow> rat \<Rightarrow> adjustments \<Rightarrow> nat \<times> uchar \<Rightarrow> canvas_op list" where
  "vertical_char x y font_size char_spacing adjustments ic =
    (let i = fst ic; char = snd ic;
         target_font = dict_get SPECIAL_CHARS_FONT_MAP char DEFAULT_FONT;
         a = dict_get adjustments char no_adjustment;
         draw_x = x + x_offset a;
         draw_y = y - of_nat i * font_size * char_spacing + y_offset a
     in [SetFont target_font font_size] @ bold_on font_size
        @ draw_glyph font_size a char draw_x draw_y @ bold_off)"

definition draw_vertical_text ::
  "ustring \<Rightarrow> rat \<Rightarrow> rat \<Rightarrow> rat \<Rightarrow> rat \<Rightarrow> adjustments option \<Rightarrow> canvas_op list" where
  "draw_vertical_text text x y font_size char_spacing adjustments =
    concat (map (vertical_char x y font_size char_spacing (or_default adjustments)) (enumerate 0 text))"

section \<open>Reading a canvas log\<close>

text \<open>
  The position at which each \<^verbatim>\<open>drawString\<close> of a log places its text: the
  coordinates of the call for an upright draw, and the origin of the translated frame
  (the argument of the enclosing \<^verbatim>\<open>translate\<close>) for a draw between
  \<^verbatim>\<open>saveState\<close> and \<^verbatim>\<open>restoreState\<close>, where the call itself is relative
  to the rotated frame. The first argument is the frame in force, if any.
\<close>

fun anchors :: "(rat \<times> rat) option \<Rightarrow> canvas_op list \<Rightarrow> (ustring \<times> rat \<times> rat) list" where
  "anchors fr [] = []"
| "anchors fr (Translate tx ty # ops) = anchors (Some (tx, ty)) ops"
| "anchors fr (RestoreState # ops) = anchors None ops"
| "anchors fr (DrawString dx dy s # ops) =
     (s, (case fr of Some origin \<Rightarrow> origin | None \<Rightarrow> (dx, dy))) # anchors fr ops"
| "anchors fr (_ # ops) = anchors fr ops"



section \<open>Horizontal text with wrapping\<close>

text \<open>
  \<^verbatim>\<open>text_str.find('\n', start, end)\<close> for \<open>start \<le> end \<le> len(text_str)\<close>: the least
  index in the window that holds the character, if any (Python returns -1 for none).
\<close>

definition str_find :: "ustring \<Rightarrow> uchar \<Rightarrow> nat \<Rightarrow> nat \<Rightarrow> nat option" where
  "str_find s ch start end_pos =
    (case filter (\<lambda>j. s ! j = ch) [start ..< min end_pos (length s)] of
       [] \<Rightarrow> None
     | j # _ \<Rightarrow> Some j)"

text \<open>The slice \<^verbatim>\<open>text_str[start:end]\<close> for indices that are not negative.\<close>

definition slice :: "ustring \<Rightarrow> nat \<Rightarrow> nat \<Rightarrow> ustring" where
  "slice s start end_pos = take (end_pos - start) (drop start s)"

text \<open>
  The loop that splits the text into lines, the same in
  \<^verbatim>\<open>draw_horizontal_text_with_wrap\<close> and
  \<^verbatim>\<open>draw_centered_horizontal_text_with_wrap\<close>. The loop does not end for every
  input (with a width of 0 the index \<open>start\<close> can stay where it is), so its result is
  an option, \<open>None\<close> when the loop runs forever. The wrap width is a number of
  characters, a natural number here.
\<close>

partial_function (option) split_lines :: "ustring \<Rightarrow> nat \<Rightarrow> nat \<Rightarrow> ustring list \<Rightarrow> ustring list option" where
  "split_lines text_str max_chars_per_line start lines =
    (if start < length text_str then
       (if start + max_chars_per_line \<ge> length text_str
        then split_lines text_str max_chars_per_line (length text_str) (lines @ [drop start text_str])
        else
          (case str_find text_str NEWLINE start (start + max_chars_per_line) of
             Some newline_pos \<Rightarrow>
               split_lines text_str max_chars_per_line (newline_pos + 1)
                 (lines @ [slice text_str start newline_pos])
           | None \<Rightarrow>
               (if text_str ! (start + max_chars_per_line) \<in> LEADING_PROHIBITED_CHARS
                then split_lines text_str max_chars_per_line (start + max_chars_per_line + 1)
                       (lines @ [slice text_str start (start + max_chars_per_line + 1)])
                else split_lines text_str max_chars_per_line (start + max_chars_per_line)
                       (lines @ [slice text_str start (start + max_chars_per_line)]))))
     else Some lines)"

declare split_lines.simps [code]

definition draw_horizontal_text_with_wrap ::
  "ustring \<Rightarrow> rat \<Rightarrow> rat \<Rightarrow> string \<Rightarrow> rat \<Rightarrow> nat \<Rightarrow> rat \<Rightarrow> canvas_op list option" where
  "draw_horizontal_text_with_wrap text x y font_name font_size max_chars_per_line line_height =
    (case split_lines text max_chars_per_line 0 [] of
       None \<Rightarrow> None
     | Some lines \<Rightarrow>
         Some ([SetFont font_name font_size] @ bold_on font_size
               @ map (\<lambda>il. DrawString x (y - of_nat (fst il) * line_height) (snd il)) (enumerate 0 lines)
               @ bold_off))"




section \<open>Name and reading\<close>

text \<open>
  \<^verbatim>\<open>draw_name_and_furigana\<close> runs the same loop twice, over the name and over the
  reading: the characters are stacked downwards from \<open>current_y\<close>. The loop gives the
  calls made and \<open>current_y\<close> after it.
\<close>

definition stacked_char :: "rat \<Rightarrow> rat \<Rightarrow> adjustments \<Rightarrow> rat \<Rightarrow> uchar \<Rightarrow> canvas_op list" where
  "stacked_char base_x font_size adjustments cur_y char =
    (let target_font = dict_get SPECIAL_CHARS_FONT_MAP char DEFAULT_FONT;
         a = dict_get adjustments char no_adjustment;
         draw_x = base_x + x_offset a;
         draw_y = cur_y + y_offset a
     in [SetFont target_font font_size] @ bold_on font_size
        @ (if char \<in> ROTATED_CHARS then rotated_glyph font_size 270 char draw_x draw_y
           else [DrawString draw_x draw_y [char]])
        @ bold_off)"

fun stacked_loop :: "rat \<Rightarrow> rat \<Rightarrow> rat \<Rightarrow> adjustments \<Rightarrow> rat \<Rightarrow> ustring \<Rightarrow> canvas_op list \<times> rat" where
  "stacked_loop base_x font_size char_spacing adjustments cur_y [] = ([], cur_y)"
| "stacked_loop base_x font_size char_spacing adjustments cur_y (char # rest) =
     (let r = stacked_loop base_x font_size char_spacing adjustments (cur_y - font_size * char_spacing) rest
      in (stacked_char base_x font_size adjustments cur_y char @ fst r, snd r))"

definition name_part :: "ustring \<Rightarrow> rat \<Rightarrow> rat \<Rightarrow> rat \<Rightarrow> rat \<Rightarrow> adjustments option \<Rightarrow> canvas_op list \<times> rat" where
  "name_part name x y name_font_size char_spacing adjustments =
    stacked_loop x name_font_size char_spacing (case adjustments of None \<Rightarrow> Map.empty | Some A \<Rightarrow> A) y name"

definition furigana_part ::
  "ustring \<Rightarrow> ustring \<Rightarrow> rat \<Rightarrow> rat \<Rightarrow> rat \<Rightarrow> adjustments option \<Rightarrow> rat \<Rightarrow> rat \<Rightarrow> rat \<Rightarrow> canvas_op list" where
  "furigana_part name furigana x current_y0 furigana_font_size adjustments char_spacing
     furigana_x_offset furigana_y_spacing =
    (let current_y = (if name \<noteq> [] \<and> furigana \<noteq> [] then current_y0 - furigana_y_spacing else current_y0);
         furigana_base_x = x + furigana_x_offset
     in fst (stacked_loop furigana_base_x furigana_font_size char_spacing
               (case adjustments of None \<Rightarrow> Map.empty | Some A \<Rightarrow> A) current_y furigana))"

definition draw_name_and_furigana ::
  "ustring \<Rightarrow> ustring \<Rightarrow> rat \<Rightarrow> rat \<Rightarrow> rat \<Rightarrow> rat \<Rightarrow> rat \<Rightarrow> adjustments option \<Rightarrow> rat \<Rightarrow> rat
     \<Rightarrow> canvas_op list" where
  "draw_name_and_furigana name furigana x y name_font_size furigana_font_size char_spacing adjustments
     furigana_x_offset furigana_y_spacing =
    (let n = name_part name x y name_font_size char_spacing adjustments
     in fst n @ furigana_part name furigana x (snd n) furigana_font_size adjustments char_spacing
                  furigana_x_offset furigana_y_spacing)"

section \<open>The anchor of a wrapped field\<close>

text \<open>Indexing a Python list; \<open>None\<close> is the \<^verbatim>\<open>IndexError\<close>.\<close>

definition py_index :: "'a list \<Rightarrow> int \<Rightarrow> 'a option" where
  "py_index xs i =
    (let n = int (length xs); j = (if i < 0 then n + i else i)
     in if 0 \<le> j \<and> j < n then Some (xs ! nat j) else None)"

text \<open>
  The branch of \<^verbatim>\<open>draw_content_blocks\<close> for a field with a list of candidate
  x-positions: the wrap count of the value selects the position, the last one when the
  count is beyond the list.
\<close>

definition wrapped_field_x :: "rat list \<Rightarrow> ustring \<Rightarrow> int \<Rightarrow> rat \<Rightarrow> rat option" where
  "wrapped_field_x x_options val max_chars page_x_offset =
    (let wrap_count = calculate_wrap_count val max_chars;
         base_x = (if wrap_count < int (length x_options) then py_index x_options wrap_count
                   else py_index x_options (- 1))
     in map_option (\<lambda>b. b + page_x_offset) base_x)"

section \<open>Full-width conversion\<close>

text \<open>
  A value held by a table cell is a string or the missing value (the float NaN of the
  table library).
\<close>

datatype pyval = NaN | Str ustring

text \<open>
  The translation table of \<^verbatim>\<open>to_full_width\<close>, built as the source builds it: the entry
  of the space first, then one entry for every code point of \<^verbatim>\<open>range(0x21, 0x7F)\<close>.
\<close>

definition trans_table :: "uchar \<rightharpoonup> uchar" where
  "trans_table = foldl (\<lambda>t i. t(i \<mapsto> i + 0xFEE0)) [0x20 \<mapsto> 0x3000] [0x21 ..< 0x7F]"

text \<open>\<^verbatim>\<open>str.translate\<close> with a table of code points: a character without an entry is kept.\<close>

definition translate :: "(uchar \<rightharpoonup> uchar) \<Rightarrow> ustring \<Rightarrow> ustring" where
  "translate table s = map (\<lambda>c. case table c of Some d \<Rightarrow> d | None \<Rightarrow> c) s"

text \<open>The character class of the pattern: the code points U+FF61 to U+FF9F.\<close>

definition halfwidth_katakana :: "uchar \<Rightarrow> bool" where
  "halfwidth_katakana c \<longleftrightarrow> 0xFF61 \<le> c \<and> c \<le> 0xFF9F"

text \<open>
  \<^verbatim>\<open>re.sub\<close> for a pattern \<^verbatim>\<open>[...]+\<close>: scanning from the left, every maximal run of
  characters of the class is replaced by the result of the replacement function on that
  run; the other characters are copied.
\<close>

function re_sub_runs :: "(uchar \<Rightarrow> bool) \<Rightarrow> (ustring \<Rightarrow> ustring) \<Rightarrow> ustring \<Rightarrow> ustring" where
  "re_sub_runs cls repl [] = []"
| "re_sub_runs cls repl (c # cs) =
    (if cls c then repl (c # takeWhile cls cs) @ re_sub_runs cls repl (dropWhile cls cs)
     else c # re_sub_runs cls repl cs)"
  by pat_completeness auto

termination re_sub_runs
  by (relation "measure (\<lambda>(cls, repl, s). length s)")
    (auto simp add: less_Suc_eq_le length_dropWhile_le)

text \<open>
  \<^verbatim>\<open>to_full_width\<close>. The normaliser \<^verbatim>\<open>unicodedata.normalize('NFKC', _)\<close> belongs to the
  standard library and is a parameter here. A value that is not a string is returned
  as it is.
\<close>

definition to_full_width :: "(ustring \<Rightarrow> ustring) \<Rightarrow> pyval \<Rightarrow> pyval" where
  "to_full_width nfkc v =
    (case v of
       Str s \<Rightarrow> Str (re_sub_runs halfwidth_katakana nfkc (translate trans_table s))
     | NaN \<Rightarrow> NaN)"

text \<open>
  What the claims say of a single character that is not half-width katakana: the printable
  ASCII characters are shifted by \<open>0xFEE0\<close>, the space becomes the ideographic space,
  every other character stays.
\<close>

definition full_width_char :: "uchar \<Rightarrow> uchar" where
  "full_width_char c =
    (if 0x21 \<le> c \<and> c \<le> 0x7E then c + 0xFEE0 else if c = 0x20 then 0x3000 else c)"

text \<open>The code points that \<^verbatim>\<open>to_full_width\<close> rewrites: ASCII from the space to the tilde, and half-width katakana.\<close>

definition half_width :: "uchar \<Rightarrow> bool" where
  "half_width c \<longleftrightarrow> (0x20 \<le> c \<and> c \<le> 0x7E) \<or> halfwidth_katakana c"

subsection \<open>NFKC on half-width katakana\<close>

text \<open>
  The normal form NFKC of a run of half-width katakana, after the Unicode character
  database: every character of U+FF61 to U+FF9F has a compatibility mapping to one
  character (listed here in the order of the code points), and a voiced or semi-voiced
  sound mark (U+3099, U+309A) then composes with the character before it where the
  database has a composed character for the pair.
\<close>

definition HALFWIDTH_KATAKANA_MAPPING :: "uchar list" where
  "HALFWIDTH_KATAKANA_MAPPING =
    [0x3002, 0x300C, 0x300D, 0x3001, 0x30FB, 0x30F2, 0x30A1, 0x30A3, 0x30A5, 0x30A7, 0x30A9,
     0x30E3, 0x30E5, 0x30E7, 0x30C3, 0x30FC, 0x30A2, 0x30A4, 0x30A6, 0x30A8, 0x30AA, 0x30AB,
     0x30AD, 0x30AF, 0x30B1, 0x30B3, 0x30B5, 0x30B7, 0x30B9, 0x30BB, 0x30BD, 0x30BF, 0x30C1,
     0x30C4, 0x30C6, 0x30C8, 0x30CA, 0x30CB, 0x30CC, 0x30CD, 0x30CE, 0x30CF, 0x30D2, 0x30D5,
     0x30D8, 0x30DB, 0x30DE, 0x30DF, 0x30E0, 0x30E1, 0x30E2, 0x30E4, 0x30E6, 0x30E8, 0x30E9,
     0x30EA, 0x30EB, 0x30EC, 0x30ED, 0x30EF, 0x30F3, 0x3099, 0x309A]"

definition KATAKANA_COMPOSITION :: "((uchar \<times> uchar) \<times> uchar) list" where
  "KATAKANA_COMPOSITION =
    [((0x30A6, 0x3099), 0x30F4), ((0x30AB, 0x3099), 0x30AC), ((0x30AD, 0x3099), 0x30AE),
     ((0x30AF, 0x3099), 0x30B0), ((0x30B1, 0x3099), 0x30B2), ((0x30B3, 0x3099), 0x30B4),
     ((0x30B5, 0x3099), 0x30B6), ((0x30B7, 0x3099), 0x30B8), ((0x30B9, 0x3099), 0x30BA),
     ((0x30BB, 0x3099), 0x30BC), ((0x30BD, 0x3099), 0x30BE), ((0x30BF, 0x3099), 0x30C0),
     ((0x30C1, 0x3099), 0x30C2), ((0x30C4, 0x3099), 0x30C5), ((0x30C6, 0x3099), 0x30C7),
     ((0x30C8, 0x3099), 0x30C9), ((0x30CF, 0x3099), 0x30D0), ((0x30CF, 0x309A), 0x30D1),
     ((0x30D2, 0x3099), 0x30D3), ((0x30D2, 0x309A), 0x30D4), ((0x30D5, 0x3099), 0x30D6),
     ((0x30D5, 0x309A), 0x30D7), ((0x30D8, 0x3099), 0x30D9), ((0x30D8, 0x309A), 0x30DA),
     ((0x30DB, 0x3099), 0x30DC), ((0x30DB, 0x309A), 0x30DD), ((0x30EF, 0x3099), 0x30F7),
     ((0x30F2, 0x3099), 0x30FA)]"

fun compose_marks :: "ustring \<Rightarrow> ustring" where
  "compose_marks (b # m # cs) =
    (case map_of KATAKANA_COMPOSITION (b, m) of
       Some p \<Rightarrow> p # compose_marks cs
     | None \<Rightarrow> b # compose_marks (m # cs))"
| "compose_marks cs = cs"

definition nfkc_halfwidth_katakana :: "ustring \<Rightarrow> ustring" where
  "nfkc_halfwidth_katakana s =
    compose_marks
      (map (\<lambda>c. if halfwidth_katakana c then HALFWIDTH_KATAKANA_MAPPING ! (c - 0xFF61) else c) s)"

section \<open>The table of records\<close>

text \<open>
  The names of the columns and the values that the preprocessor compares with, as code
  points. In the order of the definitions: the explanation of the copied work, the work
  type, the transcription with its variants for a copied work and for an original work,
  the work name with its variants, the comment with its variants, the author, the work
  information of the explanation sheet, the time stamp, the department, the year, the
  department with the year, the kind of original work, the work information, the reading
  of the name, the resubmission mark; then the work type of a copied work, the author
  \<open>none\<close>, the mark \<open>twice or more\<close> and the label shown for it. The last one is the
  name of a record, a column that the preprocessor does not mention.
\<close>

definition RINSHO_KAISETSU :: ustring where
  "RINSHO_KAISETSU = [0x81E8, 0x66F8, 0x89E3, 0x8AAC]"

definition SAKUHIN_KEISHIKI :: ustring where
  "SAKUHIN_KEISHIKI = [0x4F5C, 0x54C1, 0x5F62, 0x5F0F]"

definition SHAKUBUN :: ustring where
  "SHAKUBUN = [0x91C8, 0x6587]"

definition SHAKUBUN_RINSHO :: ustring where
  "SHAKUBUN_RINSHO = [0x91C8, 0x6587, 0xFF08, 0x81E8, 0x66F8, 0xFF09]"

definition SHAKUBUN_SOSAKU :: ustring where
  "SHAKUBUN_SOSAKU = [0x91C8, 0x6587, 0xFF08, 0x5275, 0x4F5C, 0xFF09]"

definition SAKUHINMEI :: ustring where
  "SAKUHINMEI = [0x4F5C, 0x54C1, 0x540D]"

definition SAKUHINMEI_RINSHO :: ustring where
  "SAKUHINMEI_RINSHO = [0x4F5C, 0x54C1, 0x540D, 0xFF08, 0x81E8, 0x66F8, 0xFF09]"

definition SAKUHINMEI_SOSAKU :: ustring where
  "SAKUHINMEI_SOSAKU = [0x4F5C, 0x54C1, 0x540D, 0xFF08, 0x5275, 0x4F5C, 0xFF09]"

definition KOMENTO :: ustring where
  "KOMENTO = [0x30B3, 0x30E1, 0x30F3, 0x30C8]"

definition KOMENTO_RINSHO :: ustring where
  "KOMENTO_RINSHO = [0x30B3, 0x30E1, 0x30F3, 0x30C8, 0xFF08, 0x81E8, 0x66F8, 0xFF09]"

definition KOMENTO_SOSAKU :: ustring where
  "KOMENTO_SOSAKU = [0x30B3, 0x30E1, 0x30F3, 0x30C8, 0xFF08, 0x5275, 0x4F5C, 0xFF09]"

definition SAKUSHAMEI :: ustring where
  "SAKUSHAMEI = [0x4F5C, 0x8005, 0x540D]"

definition SAKUHIN_JOHO_KAISETSU :: ustring where
  "SAKUHIN_JOHO_KAISETSU = [0x4F5C, 0x54C1, 0x60C5, 0x5831, 0xFF08, 0x6CD5, 0x5E16, 0x89E3, 0x8AAC, 0xFF09]"

definition TIMESTAMP :: ustring where
  "TIMESTAMP = [0x30BF, 0x30A4, 0x30E0, 0x30B9, 0x30BF, 0x30F3, 0x30D7]"

definition GAKUBU :: ustring where
  "GAKUBU = [0x5B66, 0x90E8]"

definition GAKUNEN :: ustring where
  "GAKUNEN = [0x5B66, 0x5E74]"

definition GAKUBU_GAKUNEN :: ustring where
  "GAKUBU_GAKUNEN = [0x5B66, 0x90E8, 0x5B66, 0x5E74]"

definition SOSAKU_NO_SHURUI :: ustring where
  "SOSAKU_NO_SHURUI = [0x5275, 0x4F5C, 0x306E, 0x7A2E, 0x985E]"

definition SAKUHIN_JOHO :: ustring where
  "SAKUHIN_JOHO = [0x4F5C, 0x54C1, 0x60C5, 0x5831]"

definition FURIGANA :: ustring where
  "FURIGANA = [0x3075, 0x308A, 0x304C, 0x306A]"

definition SAITEISHUTSU :: ustring where
  "SAITEISHUTSU = [0x518D, 0x63D0, 0x51FA]"

definition RIN :: ustring where
  "RIN = [0x81E8]"

definition NASHI :: ustring where
  "NASHI = [0x7121, 0x3057]"

definition NIKAI_IJO :: ustring where
  "NIKAI_IJO = [0xFF12, 0x56DE, 0x4EE5, 0x4E0A]"

definition YABAIYO :: ustring where
  "YABAIYO = [0x3084, 0x3070, 0x3044, 0x3088]"

definition SHIMEI :: ustring where
  "SHIMEI = [0x6C0F, 0x540D]"

text \<open>
  A row of the table (a series) maps the names of the columns to values. A table has the
  list of its columns, in their order, and its rows; the index of a table read from a
  file is the position of the row.
\<close>

type_synonym series = "ustring \<rightharpoonup> pyval"

record frame =
  columns :: "ustring list"
  rows :: "series list"

datatype error = KeyError ustring | IndexError

definition then_do :: "error + 'a \<Rightarrow> ('a \<Rightarrow> error + 'b) \<Rightarrow> error + 'b" where
  "then_do m f = (case m of Inl e \<Rightarrow> Inl e | Inr x \<Rightarrow> f x)"

text \<open>\<^verbatim>\<open>row.get(key, default)\<close> and \<^verbatim>\<open>row[key]\<close>.\<close>

definition row_get :: "series \<Rightarrow> ustring \<Rightarrow> pyval \<Rightarrow> pyval" where
  "row_get row key dflt = (case row key of Some v \<Rightarrow> v | None \<Rightarrow> dflt)"

definition row_item :: "series \<Rightarrow> ustring \<Rightarrow> error + pyval" where
  "row_item row key = (case row key of Some v \<Rightarrow> Inr v | None \<Rightarrow> Inl (KeyError key))"

text \<open>
  \<^verbatim>\<open>str(v or "")\<close>: the empty string is false and gives the empty string, another string
  gives itself, and the missing value, which is true, gives its name.
\<close>

definition str_or_empty :: "pyval \<Rightarrow> ustring" where
  "str_or_empty v = (case v of Str s \<Rightarrow> s | NaN \<Rightarrow> [0x6E, 0x61, 0x6E])"

text \<open>\<^verbatim>\<open>fillna('')\<close> on a value and on a table, and \<^verbatim>\<open>astype(str)\<close> after it.\<close>

definition fillna_value :: "pyval \<Rightarrow> pyval" where
  "fillna_value v = (case v of NaN \<Rightarrow> Str [] | Str s \<Rightarrow> Str s)"

definition fillna :: "frame \<Rightarrow> frame" where
  "fillna d = d\<lparr>rows := map (\<lambda>r. map_option fillna_value \<circ> r) (rows d)\<rparr>"

text \<open>
  \<^verbatim>\<open>data[c] = data.apply(f, axis=1)\<close>: the function is applied to every row; a column of
  that name takes the new values in its place, a new column comes last.
\<close>

definition assign :: "frame \<Rightarrow> ustring \<Rightarrow> (series \<Rightarrow> pyval) \<Rightarrow> frame" where
  "assign d c f =
    \<lparr>columns = (if c \<in> set (columns d) then columns d else columns d @ [c]),
     rows = map (\<lambda>r. r(c \<mapsto> f r)) (rows d)\<rparr>"

text \<open>
  \<^verbatim>\<open>data.drop(columns=cs, inplace=True)\<close>. Every call of the source names columns that it
  has tested to be in the table.
\<close>

definition drop_columns :: "frame \<Rightarrow> ustring list \<Rightarrow> frame" where
  "drop_columns d cs =
    \<lparr>columns = filter (\<lambda>c. c \<notin> set cs) (columns d),
     rows = map (\<lambda>r. r |` (- set cs)) (rows d)\<rparr>"

text \<open>
  \<^verbatim>\<open>data.insert(loc, c, data.pop(c))\<close>: the column is taken out and put back at position
  \<open>loc\<close>, which must not exceed the number of the remaining columns.
\<close>

definition move_column :: "frame \<Rightarrow> nat \<Rightarrow> ustring \<Rightarrow> error + frame" where
  "move_column d loc c =
    (if c \<notin> set (columns d) then Inl (KeyError c)
     else let cs = removeAll c (columns d) in
       if length cs < loc then Inl IndexError
       else Inr (d\<lparr>columns := take loc cs @ c # drop loc cs\<rparr>))"

text \<open>
  \<^verbatim>\<open>data.at[idx, c] = v\<close>: a column that the table does not have yet is added last, with
  the missing value in the other rows.
\<close>

definition at_set :: "frame \<Rightarrow> nat \<Rightarrow> ustring \<Rightarrow> pyval \<Rightarrow> frame" where
  "at_set d idx c v =
    (let d' = (if c \<in> set (columns d) then d
               else \<lparr>columns = columns d @ [c], rows = map (\<lambda>r. r(c \<mapsto> NaN)) (rows d)\<rparr>)
     in d'\<lparr>rows := (rows d')[idx := ((rows d') ! idx)(c \<mapsto> v)]\<rparr>)"

section \<open>The row preprocessor\<close>

text \<open>
  The body of the loop of \<^verbatim>\<open>format_df\<close>. The row is the one that \<^verbatim>\<open>iterrows\<close> has read
  from the table; the three assignments go to the table.
\<close>

definition format_row :: "frame \<Rightarrow> nat \<times> series \<Rightarrow> error + frame" where
  "format_row data ir =
    (let idx = fst ir; row = snd ir;
         work_type = str_or_empty (row_get row SAKUHIN_KEISHIKI (Str []))
     in if work_type = RIN then
          then_do (row_item row SHAKUBUN_RINSHO) (\<lambda>v1.
          then_do (row_item row SAKUHINMEI_RINSHO) (\<lambda>v2.
          then_do (row_item row KOMENTO_RINSHO) (\<lambda>v3.
            Inr (at_set (at_set (at_set data idx SHAKUBUN v1) idx SAKUHINMEI v2) idx KOMENTO v3))))
        else
          then_do (row_item row SHAKUBUN_SOSAKU) (\<lambda>v1.
          then_do (row_item row SAKUHINMEI_SOSAKU) (\<lambda>v2.
          then_do (row_item row KOMENTO_SOSAKU) (\<lambda>v3.
            Inr (at_set (at_set (at_set data idx SHAKUBUN v1) idx SAKUHINMEI v2) idx KOMENTO v3)))))"

fun format_loop :: "(nat \<times> series) list \<Rightarrow> frame \<Rightarrow> error + frame" where
  "format_loop [] data = Inr data"
| "format_loop (ir # irs) data = then_do (format_row data ir) (format_loop irs)"

definition format_df :: "frame \<Rightarrow> error + frame" where
  "format_df data = format_loop (enumerate 0 (rows data)) data"

definition combine_work_name_for_exp :: "series \<Rightarrow> pyval" where
  "combine_work_name_for_exp row =
    (let work_type = str_or_empty (row_get row SAKUHIN_KEISHIKI (Str []));
         work_name = str_or_empty (row_get row SAKUHINMEI (Str []));
         writer_name = str_or_empty (row_get row SAKUSHAMEI (Str []))
     in if writer_name = NASHI then Str ([0x300C] @ work_name @ [0x300D])
        else if work_type = RIN then Str (writer_name @ [0x300C] @ work_name @ [0x300D])
        else Str [])"

definition department_year :: "series \<Rightarrow> pyval" where
  "department_year r =
    Str (str_or_empty (row_get r GAKUBU (Str [])) @ [0x20] @ str_or_empty (row_get r GAKUNEN (Str [])))"

definition combine_work_name :: "series \<Rightarrow> pyval" where
  "combine_work_name row =
    (let work_name = str_or_empty (row_get row SAKUHINMEI (Str []));
         work_type = str_or_empty (row_get row SAKUHIN_KEISHIKI (Str []));
         work_writer = str_or_empty (row_get row SAKUSHAMEI (Str []));
         creation_type = str_or_empty (row_get row SOSAKU_NO_SHURUI (Str []))
     in if work_writer = [] then Str (creation_type @ [0x3000, 0x300C] @ work_name @ [0x300D])
        else if work_writer = NASHI then Str (work_type @ [0x3000, 0x300C] @ work_name @ [0x300D])
        else Str (work_type @ [0x3000] @ work_writer @ [0x3000, 0x300C] @ work_name @ [0x300D]))"

definition hurigana :: "series \<Rightarrow> pyval" where
  "hurigana row = Str ([0xFF08] @ str_or_empty (row_get row FURIGANA (Str [])) @ [0xFF09])"

definition resubmission :: "series \<Rightarrow> pyval" where
  "resubmission row =
    (let resub = str_or_empty (row_get row SAITEISHUTSU (Str []))
     in if resub = SAITEISHUTSU then Str SAITEISHUTSU
        else if resub = NIKAI_IJO then Str YABAIYO
        else Str [])"

text \<open>
  \<^verbatim>\<open>preprocess_data\<close>, step by step as the source has it. The first step reads the column
  of the explanation, which the table has there.
\<close>

definition convert_explanation :: "(ustring \<Rightarrow> ustring) \<Rightarrow> frame \<Rightarrow> frame" where
  "convert_explanation nfkc data =
    (if RINSHO_KAISETSU \<in> set (columns data)
     then assign data RINSHO_KAISETSU
       (\<lambda>r. to_full_width nfkc (fillna_value (row_get r RINSHO_KAISETSU NaN)))
     else data)"

definition drop_timestamp :: "frame \<Rightarrow> frame" where
  "drop_timestamp data =
    (if TIMESTAMP \<in> set (columns data) then drop_columns data [TIMESTAMP] else data)"

definition join_department_year :: "frame \<Rightarrow> error + frame" where
  "join_department_year data =
    (if GAKUBU \<in> set (columns data) \<and> GAKUNEN \<in> set (columns data)
     then move_column (drop_columns (assign data GAKUBU_GAKUNEN department_year) [GAKUBU, GAKUNEN])
       2 GAKUBU_GAKUNEN
     else Inr data)"

definition join_work_information :: "frame \<Rightarrow> error + frame" where
  "join_work_information data =
    (if SAKUHINMEI \<in> set (columns data) \<and> SAKUHIN_KEISHIKI \<in> set (columns data)
     then let data1 = assign data SAKUHIN_JOHO combine_work_name;
              drop_cols = filter (\<lambda>col. col \<in> set (columns data1))
                [SAKUHIN_KEISHIKI, SAKUHINMEI, SAKUSHAMEI]
          in move_column (drop_columns data1 drop_cols) 3 SAKUHIN_JOHO
     else Inr data)"

definition preprocess_data :: "(ustring \<Rightarrow> ustring) \<Rightarrow> frame \<Rightarrow> error + frame" where
  "preprocess_data nfkc data =
    then_do (format_df (fillna (convert_explanation nfkc data))) (\<lambda>data.
    then_do (move_column (assign data SAKUHIN_JOHO_KAISETSU combine_work_name_for_exp)
               0 SAKUHIN_JOHO_KAISETSU) (\<lambda>data.
    then_do (join_department_year (drop_timestamp data)) (\<lambda>data.
    then_do (join_work_information data) (\<lambda>data.
    then_do (move_column (assign data FURIGANA hurigana) 5 FURIGANA) (\<lambda>data.
    move_column (assign data SAITEISHUTSU resubmission) 4 SAITEISHUTSU)))))"

text \<open>The value of a field of a record: the cell of row \<open>i\<close> in column \<open>c\<close>.\<close>

definition cell :: "frame \<Rightarrow> nat \<Rightarrow> ustring \<Rightarrow> pyval option" where
  "cell d i c = (if i < length (rows d) \<and> c \<in> set (columns d) then (rows d ! i) c else None)"

text \<open>
  The columns that \<^verbatim>\<open>preprocess_data\<close> assigns or drops.
\<close>

definition PREPROCESSED_COLUMNS :: "ustring list" where
  "PREPROCESSED_COLUMNS =
    [RINSHO_KAISETSU, SHAKUBUN, SAKUHINMEI, KOMENTO, SAKUHIN_JOHO_KAISETSU, TIMESTAMP, GAKUBU,
     GAKUNEN, GAKUBU_GAKUNEN, SAKUHIN_KEISHIKI, SAKUSHAMEI, SAKUHIN_JOHO, FURIGANA, SAITEISHUTSU]"

text \<open>
  Two tables with the same number of rows agree outside a set of columns: each other
  column is in both tables or in none, and every row has the same value there.
\<close>

definition keeps :: "ustring set \<Rightarrow> frame \<Rightarrow> frame \<Rightarrow> bool" where
  "keeps W d d' \<longleftrightarrow>
    length (rows d') = length (rows d)
    \<and> (\<forall>c. c \<notin> W \<longrightarrow> (c \<in> set (columns d') \<longleftrightarrow> c \<in> set (columns d))
          \<and> (\<forall>i < length (rows d). (rows d' ! i) c = (rows d ! i) c))"

subsection \<open>An example table\<close>

text \<open>
  Two records as the entry form delivers them: a copied work, whose fields for an original
  work are missing, and an original work, whose fields for a copied work are missing.
  \<open>EXAMPLE_ONCE\<close> and \<open>EXAMPLE_TWICE\<close> are the tables after one and after two
  applications of the preprocessor.
\<close>

definition EXAMPLE_COLUMNS :: "ustring list" where
  "EXAMPLE_COLUMNS =
    [TIMESTAMP, SHIMEI, FURIGANA, GAKUBU, GAKUNEN, SAKUHIN_KEISHIKI, SAKUSHAMEI, SAKUHINMEI_RINSHO, SHAKUBUN_RINSHO, KOMENTO_RINSHO, RINSHO_KAISETSU, SOSAKU_NO_SHURUI, SAKUHINMEI_SOSAKU, SHAKUBUN_SOSAKU, KOMENTO_SOSAKU, SAITEISHUTSU]"

definition EXAMPLE_ROW_0 :: series where
  "EXAMPLE_ROW_0 =
     [TIMESTAMP \<mapsto> Str [0x31],
      SHIMEI \<mapsto> Str [0x5C71, 0x7530],
      FURIGANA \<mapsto> Str [0x3084, 0x307E, 0x3060],
      GAKUBU \<mapsto> Str [0x6587],
      GAKUNEN \<mapsto> Str [0x32],
      SAKUHIN_KEISHIKI \<mapsto> Str [0x81E8],
      SAKUSHAMEI \<mapsto> Str [0x738B],
      SAKUHINMEI_RINSHO \<mapsto> Str [0x685C],
      SHAKUBUN_RINSHO \<mapsto> Str [0x3042],
      KOMENTO_RINSHO \<mapsto> Str [0x3044],
      RINSHO_KAISETSU \<mapsto> Str [0x41, 0x20, 0xFF71],
      SOSAKU_NO_SHURUI \<mapsto> NaN,
      SAKUHINMEI_SOSAKU \<mapsto> NaN,
      SHAKUBUN_SOSAKU \<mapsto> NaN,
      KOMENTO_SOSAKU \<mapsto> NaN,
      SAITEISHUTSU \<mapsto> NaN]"

definition EXAMPLE_ROW_1 :: series where
  "EXAMPLE_ROW_1 =
     [TIMESTAMP \<mapsto> Str [0x32],
      SHIMEI \<mapsto> Str [0x7530],
      FURIGANA \<mapsto> Str [0x305F],
      GAKUBU \<mapsto> Str [0x7406],
      GAKUNEN \<mapsto> Str [0x31],
      SAKUHIN_KEISHIKI \<mapsto> Str [0x5275],
      SAKUSHAMEI \<mapsto> NaN,
      SAKUHINMEI_RINSHO \<mapsto> NaN,
      SHAKUBUN_RINSHO \<mapsto> NaN,
      KOMENTO_RINSHO \<mapsto> NaN,
      RINSHO_KAISETSU \<mapsto> NaN,
      SOSAKU_NO_SHURUI \<mapsto> Str [0x6F22, 0x5B57],
      SAKUHINMEI_SOSAKU \<mapsto> Str [0x5C71],
      SHAKUBUN_SOSAKU \<mapsto> Str [0x3046],
      KOMENTO_SOSAKU \<mapsto> Str [0x3048],
      SAITEISHUTSU \<mapsto> Str [0xFF12, 0x56DE, 0x4EE5, 0x4E0A]]"

definition EXAMPLE :: frame where
  "EXAMPLE = \<lparr>columns = EXAMPLE_COLUMNS, rows = [EXAMPLE_ROW_0, EXAMPLE_ROW_1]\<rparr>"

definition EXAMPLE_ONCE_COLUMNS :: "ustring list" where
  "EXAMPLE_ONCE_COLUMNS =
    [SAKUHIN_JOHO_KAISETSU, SHIMEI, GAKUBU_GAKUNEN, SAKUHIN_JOHO, SAITEISHUTSU, SAKUHINMEI_RINSHO, FURIGANA, SHAKUBUN_RINSHO, KOMENTO_RINSHO, RINSHO_KAISETSU, SOSAKU_NO_SHURUI, SAKUHINMEI_SOSAKU, SHAKUBUN_SOSAKU, KOMENTO_SOSAKU, SHAKUBUN, KOMENTO]"

definition EXAMPLE_ONCE_ROW_0 :: series where
  "EXAMPLE_ONCE_ROW_0 =
     [SAKUHIN_JOHO_KAISETSU \<mapsto> Str [0x738B, 0x300C, 0x685C, 0x300D],
      SHIMEI \<mapsto> Str [0x5C71, 0x7530],
      GAKUBU_GAKUNEN \<mapsto> Str [0x6587, 0x20, 0x32],
      SAKUHIN_JOHO \<mapsto> Str [0x81E8, 0x3000, 0x738B, 0x3000, 0x300C, 0x685C, 0x300D],
      SAITEISHUTSU \<mapsto> Str [],
      SAKUHINMEI_RINSHO \<mapsto> Str [0x685C],
      FURIGANA \<mapsto> Str [0xFF08, 0x3084, 0x307E, 0x3060, 0xFF09],
      SHAKUBUN_RINSHO \<mapsto> Str [0x3042],
      KOMENTO_RINSHO \<mapsto> Str [0x3044],
      RINSHO_KAISETSU \<mapsto> Str [0xFF21, 0x3000, 0x30A2],
      SOSAKU_NO_SHURUI \<mapsto> Str [],
      SAKUHINMEI_SOSAKU \<mapsto> Str [],
      SHAKUBUN_SOSAKU \<mapsto> Str [],
      KOMENTO_SOSAKU \<mapsto> Str [],
      SHAKUBUN \<mapsto> Str [0x3042],
      KOMENTO \<mapsto> Str [0x3044]]"

definition EXAMPLE_ONCE_ROW_1 :: series where
  "EXAMPLE_ONCE_ROW_1 =
     [SAKUHIN_JOHO_KAISETSU \<mapsto> Str [],
      SHIMEI \<mapsto> Str [0x7530],
      GAKUBU_GAKUNEN \<mapsto> Str [0x7406, 0x20, 0x31],
      SAKUHIN_JOHO \<mapsto> Str [0x6F22, 0x5B57, 0x3000, 0x300C, 0x5C71, 0x300D],
      SAITEISHUTSU \<mapsto> Str [0x3084, 0x3070, 0x3044, 0x3088],
      SAKUHINMEI_RINSHO \<mapsto> Str [],
      FURIGANA \<mapsto> Str [0xFF08, 0x305F, 0xFF09],
      SHAKUBUN_RINSHO \<mapsto> Str [],
      KOMENTO_RINSHO \<mapsto> Str [],
      RINSHO_KAISETSU \<mapsto> Str [],
      SOSAKU_NO_SHURUI \<mapsto> Str [0x6F22, 0x5B57],
      SAKUHINMEI_SOSAKU \<mapsto> Str [0x5C71],
      SHAKUBUN_SOSAKU \<mapsto> Str [0x3046],
      KOMENTO_SOSAKU \<mapsto> Str [0x3048],
      SHAKUBUN \<mapsto> Str [0x3046],
      KOMENTO \<mapsto> Str [0x3048]]"

definition EXAMPLE_ONCE :: frame where
  "EXAMPLE_ONCE = \<lparr>columns = EXAMPLE_ONCE_COLUMNS, rows = [EXAMPLE_ONCE_ROW_0, EXAMPLE_ONCE_ROW_1]\<rparr>"

definition EXAMPLE_TWICE_COLUMNS :: "ustring list" where
  "EXAMPLE_TWICE_COLUMNS =
    [SAKUHIN_JOHO_KAISETSU, SHIMEI, GAKUBU_GAKUNEN, SAKUHIN_JOHO, SAITEISHUTSU, FURIGANA, SAKUHINMEI_RINSHO, SHAKUBUN_RINSHO, KOMENTO_RINSHO, RINSHO_KAISETSU, SOSAKU_NO_SHURUI, SAKUHINMEI_SOSAKU, SHAKUBUN_SOSAKU, KOMENTO_SOSAKU, SHAKUBUN, KOMENTO, SAKUHINMEI]"

definition EXAMPLE_TWICE_ROW_0 :: series where
  "EXAMPLE_TWICE_ROW_0 =
     [SAKUHIN_JOHO_KAISETSU \<mapsto> Str [],
      SHIMEI \<mapsto> Str [0x5C71, 0x7530],
      GAKUBU_GAKUNEN \<mapsto> Str [0x6587, 0x20, 0x32],
      SAKUHIN_JOHO \<mapsto> Str [0x81E8, 0x3000, 0x738B, 0x3000, 0x300C, 0x685C, 0x300D],
      SAITEISHUTSU \<mapsto> Str [],
      FURIGANA \<mapsto> Str [0xFF08, 0xFF08, 0x3084, 0x307E, 0x3060, 0xFF09, 0xFF09],
      SAKUHINMEI_RINSHO \<mapsto> Str [0x685C],
      SHAKUBUN_RINSHO \<mapsto> Str [0x3042],
      KOMENTO_RINSHO \<mapsto> Str [0x3044],
      RINSHO_KAISETSU \<mapsto> Str [0xFF21, 0x3000, 0x30A2],
      SOSAKU_NO_SHURUI \<mapsto> Str [],
      SAKUHINMEI_SOSAKU \<mapsto> Str [],
      SHAKUBUN_SOSAKU \<mapsto> Str [],
      KOMENTO_SOSAKU \<mapsto> Str [],
      SHAKUBUN \<mapsto> Str [],
      KOMENTO \<mapsto> Str [],
      SAKUHINMEI \<mapsto> Str []]"

definition EXAMPLE_TWICE_ROW_1 :: series where
  "EXAMPLE_TWICE_ROW_1 =
     [SAKUHIN_JOHO_KAISETSU \<mapsto> Str [],
      SHIMEI \<mapsto> Str [0x7530],
      GAKUBU_GAKUNEN \<mapsto> Str [0x7406, 0x20, 0x31],
      SAKUHIN_JOHO \<mapsto> Str [0x6F22, 0x5B57, 0x3000, 0x300C, 0x5C71, 0x300D],
      SAITEISHUTSU \<mapsto> Str [],
      FURIGANA \<mapsto> Str [0xFF08, 0xFF08, 0x305F, 0xFF09, 0xFF09],
      SAKUHINMEI_RINSHO \<mapsto> Str [],
      SHAKUBUN_RINSHO \<mapsto> Str [],
      KOMENTO_RINSHO \<mapsto> Str [],
      RINSHO_KAISETSU \<mapsto> Str [],
      SOSAKU_NO_SHURUI \<mapsto> Str [0x6F22, 0x5B57],
      SAKUHINMEI_SOSAKU \<mapsto> Str [0x5C71],
      SHAKUBUN_SOSAKU \<mapsto> Str [0x3046],
      KOMENTO_SOSAKU \<mapsto> Str [0x3048],
      SHAKUBUN \<mapsto> Str [0x3046],
      KOMENTO \<mapsto> Str [0x3048],
      SAKUHINMEI \<mapsto> Str [0x5C71]]"

definition EXAMPLE_TWICE :: frame where
  "EXAMPLE_TWICE = \<lparr>columns = EXAMPLE_TWICE_COLUMNS, rows = [EXAMPLE_TWICE_ROW_0, EXAMPLE_TWICE_ROW_1]\<rparr>"

chapter \<open>Properties\<close>

section \<open>Properties of the wrap counter\<close>

lemma wrap_count_step_plain:
  assumes "c \<noteq> NEWLINE" "c \<notin> LEADING_PROHIBITED_CHARS"
  shows "wrap_count_step W n (l, cc) (i, c) = (if cc \<ge> W then (l + 1, 1) else (l, cc + 1))"
  using assms by (simp add: wrap_count_step_def Let_def)

lemma wrap_count_plain_fold:
  assumes "1 \<le> W" "plain_text xs" "0 \<le> cc" "cc \<le> W"
  shows "fst (foldl (wrap_count_step W n) (l, cc) (enumerate k xs)) =
         l + (if xs = [] then 0 else (cc + int (length xs) - 1) div W)"
  using assms
proof (induction xs arbitrary: k l cc)
  case Nil
  then show ?case by simp
next
  case (Cons c xs)
  have c: "c \<noteq> NEWLINE" "c \<notin> LEADING_PROHIBITED_CHARS" and xs: "plain_text xs"
    using Cons.prems(2) by (simp_all add: plain_text_def)
  show ?case
  proof (cases "cc \<ge> W")
    case True
    then have ccW: "cc = W" using Cons.prems by simp
    have "fst (foldl (wrap_count_step W n) (l, cc) (enumerate k (c # xs))) =
          fst (foldl (wrap_count_step W n) (l + 1, 1) (enumerate (Suc k) xs))"
      using True c by (simp add: wrap_count_step_plain)
    also have "\<dots> = l + 1 + (if xs = [] then 0 else (1 + int (length xs) - 1) div W)"
      using Cons.IH [where cc = 1 and k = "Suc k" and l = "l + 1"] Cons.prems(1) xs by simp
    also have "\<dots> = l + (W + int (length xs)) div W"
      using Cons.prems(1) by (cases "xs = []") simp_all
    finally show ?thesis using ccW by (simp add: algebra_simps)
  next
    case False
    have "fst (foldl (wrap_count_step W n) (l, cc) (enumerate k (c # xs))) =
          fst (foldl (wrap_count_step W n) (l, cc + 1) (enumerate (Suc k) xs))"
      using False c by (simp add: wrap_count_step_plain)
    also have "\<dots> = l + (if xs = [] then 0 else (cc + 1 + int (length xs) - 1) div W)"
      using Cons.IH [where cc = "cc + 1" and k = "Suc k" and l = l] Cons.prems False xs by simp
    also have "\<dots> = l + (cc + int (length xs)) div W"
      using Cons.prems False by (cases "xs = []") simp_all
    finally show ?thesis by (simp add: algebra_simps)
  qed
qed

text \<open>
  Claim C1. For a non-empty string of length \<open>L\<close> without line-leading-prohibited
  characters and without explicit line breaks, and a wrap width \<open>W \<ge> 1\<close>,
  \<^verbatim>\<open>calculate_wrap_count\<close> returns \<open>\<lceil>L / W\<rceil> - 1\<close>, which is \<open>\<lfloor>(L - 1) / W\<rfloor>\<close>;
  with \<open>W = 55\<close> and \<open>L = 110\<close> this is 1.
\<close>

theorem calculate_wrap_count_plain:
  assumes "text \<noteq> []" "plain_text text" "1 \<le> W"
  shows "calculate_wrap_count text W = (int (length text) - 1) div W
       \<and> calculate_wrap_count text W = \<lceil>real (length text) / real_of_int W\<rceil> - 1
       \<and> (W = 55 \<and> length text = 110 \<longrightarrow> calculate_wrap_count text W = 1)"
proof -
  let ?L = "int (length text)"
  have main: "calculate_wrap_count text W = (?L - 1) div W"
    using assms wrap_count_plain_fold [where W = W and xs = "text" and cc = 0 and n = "length text" and l = 1 and k = 0]
    by (simp add: calculate_wrap_count_def)
  have Lpos: "1 \<le> ?L" using assms(1) by (cases "text") simp_all
  define q r where "q = (?L - 1) div W" and "r = (?L - 1) mod W"
  have "\<lceil>real_of_int ?L / real_of_int W\<rceil> = q + 1"
  proof (rule ceiling_unique)
    have W0: "0 < real_of_int W" using assms(3) by simp
    have m: "?L - 1 = W * q + r" by (simp add: q_def r_def)
    have r: "0 \<le> r" "r < W" using assms(3) by (simp_all add: r_def)
    have lo: "W * q < ?L" using m r by linarith
    have "W * (q + 1) = W * q + W" by (simp add: algebra_simps)
    then have hi: "?L \<le> W * (q + 1)" using m r by linarith
    have "real_of_int (W * q) < real_of_int ?L" using lo by (simp only: of_int_less_iff)
    then show "real_of_int (q + 1) - 1 < real_of_int ?L / real_of_int W"
      using W0 by (simp add: pos_less_divide_eq mult.commute)
    have "real_of_int ?L \<le> real_of_int (W * (q + 1))" using hi by (simp only: of_int_le_iff)
    then show "real_of_int ?L / real_of_int W \<le> real_of_int (q + 1)"
      using W0 by (simp add: pos_divide_le_eq mult.commute)
  qed
  then have ceil: "calculate_wrap_count text W = \<lceil>real (length text) / real_of_int W\<rceil> - 1"
    using main by (simp add: q_def)
  have "W = 55 \<and> length text = 110 \<longrightarrow> calculate_wrap_count text W = 1"
    using main by auto
  with main ceil show ?thesis by blast
qed

theorem calculate_wrap_count_plain_witness:
  "replicate 110 (0x3042 :: uchar) \<noteq> [] \<and> plain_text (replicate 110 0x3042) \<and> (1 :: int) \<le> 55
   \<and> calculate_wrap_count (replicate 110 0x3042) 55 = 1"
proof -
  have h1: "replicate 110 (0x3042 :: uchar) \<noteq> []" by simp
  have h2: "plain_text (replicate 110 0x3042)"
    by (simp add: plain_text_def NEWLINE_def LEADING_PROHIBITED_CHARS_def)
  have h3: "(1 :: int) \<le> 55" by simp
  show ?thesis
    using calculate_wrap_count_plain [OF h1 h2 h3] h1 h2 by simp
qed

section \<open>Properties of vertical text without wrapping\<close>

lemma anchors_bold_on: "anchors fr (bold_on f @ ops) = anchors fr ops"
  by (simp add: bold_on_def)

lemma anchors_bold_off: "anchors fr (bold_off @ ops) = anchors fr ops"
  by (simp add: bold_off_def)

lemma anchors_draw_glyph:
  "anchors None (draw_glyph f a c dx dy @ ops) = ([c], dx, dy) # anchors None ops"
  by (simp add: draw_glyph_def rotated_glyph_def split: option.split)

lemma anchors_vertical_char:
  "anchors None (vertical_char x y f c A (i, ch) @ ops) =
     ([ch], x + x_offset (dict_get A ch no_adjustment),
      y - of_nat i * f * c + y_offset (dict_get A ch no_adjustment)) # anchors None ops"
  by (simp add: vertical_char_def Let_def anchors_bold_on anchors_draw_glyph anchors_bold_off)

lemma anchors_vertical_loop:
  "anchors None (concat (map (vertical_char x y f c A) (enumerate k s))) =
     map (\<lambda>ic. ([snd ic], x + x_offset (dict_get A (snd ic) no_adjustment),
                 y - of_nat (fst ic) * f * c + y_offset (dict_get A (snd ic) no_adjustment)))
         (enumerate k s)"
  by (induction s arbitrary: k) (simp_all add: anchors_vertical_char)

text \<open>
  Claim C4. In vertical layout without wrapping, the log of \<^verbatim>\<open>draw_vertical_text\<close>
  holds one draw per character of the string, in order, and the \<open>i\<close>-th character
  (from 0) is placed at \<open>x + dx\<close> and \<open>y - i * f * c + dy\<close>, where \<open>(dx, dy)\<close> is the
  character's entry in the adjustment map \<open>A\<close>, and \<open>(0, 0)\<close> when it has none.
\<close>

theorem draw_vertical_text_positions:
  "length (anchors None (draw_vertical_text s x y f c (Some A))) = length s
   \<and> (\<forall>i < length s.
        anchors None (draw_vertical_text s x y f c (Some A)) ! i =
          ([s ! i],
           x + (case A (s ! i) of Some a \<Rightarrow> x_offset a | None \<Rightarrow> 0),
           y - of_nat i * f * c + (case A (s ! i) of Some a \<Rightarrow> y_offset a | None \<Rightarrow> 0)))"
proof -
  have off: "x_offset (dict_get A ch no_adjustment) = (case A ch of Some a \<Rightarrow> x_offset a | None \<Rightarrow> 0)"
       "y_offset (dict_get A ch no_adjustment) = (case A ch of Some a \<Rightarrow> y_offset a | None \<Rightarrow> 0)"
    for ch
    by (simp_all add: dict_get_def no_adjustment_def split: option.split)
  have eq: "anchors None (draw_vertical_text s x y f c (Some A)) =
      map (\<lambda>ic. ([snd ic], x + (case A (snd ic) of Some a \<Rightarrow> x_offset a | None \<Rightarrow> 0),
                 y - of_nat (fst ic) * f * c + (case A (snd ic) of Some a \<Rightarrow> y_offset a | None \<Rightarrow> 0)))
          (enumerate 0 s)"
    by (simp add: draw_vertical_text_def or_default_def anchors_vertical_loop off)
  show ?thesis
    unfolding eq by (simp add: nth_enumerate_eq)
qed

theorem draw_vertical_text_positions_witness:
  "anchors None (draw_vertical_text [0x66F8, 0x3002] 250 780 18 1 (Some DEPARTMENT_YEAR_ADJUSTMENTS)) ! 1
     = ([0x3002], 256, 766)"
proof -
  have "(1 :: nat) < length [0x66F8 :: uchar, 0x3002]" by simp
  then show ?thesis
    using draw_vertical_text_positions
      [of "[0x66F8, 0x3002]" 250 780 18 1 DEPARTMENT_YEAR_ADJUSTMENTS]
    by (simp add: DEPARTMENT_YEAR_ADJUSTMENTS_def)
qed

section \<open>Properties of vertical text with wrapping\<close>

lemma anchors_char_block:
  "anchors None ([SetFont fn f] @ bold_on f @ draw_glyph f a ch dx dy @ bold_off) = [([ch], dx, dy)]"
  using anchors_bold_on [of None f "draw_glyph f a ch dx dy @ bold_off"]
        anchors_draw_glyph [of f a ch dx dy bold_off]
        anchors_bold_off [of None "[]"]
  by simp

lemma prohibited_not_newline: "ch \<in> LEADING_PROHIBITED_CHARS \<Longrightarrow> ch \<noteq> NEWLINE"
  by (auto simp: LEADING_PROHIBITED_CHARS_def NEWLINE_def)

lemma vwrap_step_hanging:
  assumes "mx \<le> char_count st" "ch \<in> LEADING_PROHIBITED_CHARS"
  shows "anchors None (fst (vwrap_step y f c mx ls A st ch)) =
           [([ch], current_x st + x_offset (hanging_adj A ch),
                   current_y st + y_offset (hanging_adj A ch) + f * c)]"
    and "snd (vwrap_step y f c mx ls A st ch) = next_column y ls st"
proof -
  have nl: "ch \<noteq> NEWLINE" using assms(2) by (rule prohibited_not_newline)
  have a: "(if ch \<in> dom HANGING_PUNCTUATION_ADJUSTMENTS
            then the (HANGING_PUNCTUATION_ADJUSTMENTS ch)
            else dict_get A ch no_adjustment) = hanging_adj A ch"
    by (auto simp: hanging_adj_def dom_def split: option.split)
  show "anchors None (fst (vwrap_step y f c mx ls A st ch)) =
           [([ch], current_x st + x_offset (hanging_adj A ch),
                   current_y st + y_offset (hanging_adj A ch) + f * c)]"
    using assms nl by (simp add: vwrap_step_def Let_def a anchors_char_block del: append.simps)
  show "snd (vwrap_step y f c mx ls A st ch) = next_column y ls st"
    using assms nl by (simp add: vwrap_step_def Let_def)
qed

lemma vwrap_step_counted:
  assumes "0 < char_count (snd (vwrap_step y f c mx ls A st ch))"
  shows "ch \<noteq> NEWLINE"
    and "anchors None (fst (vwrap_step y f c mx ls A st ch)) =
           [([ch], current_x (snd (vwrap_step y f c mx ls A st ch)) + x_offset (dict_get A ch no_adjustment),
                   current_y (snd (vwrap_step y f c mx ls A st ch)) + f * c + y_offset (dict_get A ch no_adjustment))]"
proof -
  show nl: "ch \<noteq> NEWLINE"
    using assms by (auto simp: vwrap_step_def next_column_def)
  have nh: "\<not> (mx \<le> char_count st \<and> ch \<in> LEADING_PROHIBITED_CHARS)"
    using assms nl by (auto simp: vwrap_step_def Let_def next_column_def)
  show "anchors None (fst (vwrap_step y f c mx ls A st ch)) =
           [([ch], current_x (snd (vwrap_step y f c mx ls A st ch)) + x_offset (dict_get A ch no_adjustment),
                   current_y (snd (vwrap_step y f c mx ls A st ch)) + f * c + y_offset (dict_get A ch no_adjustment))]"
    using nl nh by (auto simp add: vwrap_step_def Let_def anchors_char_block simp del: append.simps)
qed

lemma vwrap_state_snoc:
  "vwrap_state y f c mx ls A st (xs @ [ch]) =
     snd (vwrap_step y f c mx ls A (vwrap_state y f c mx ls A st xs) ch)"
  by (simp add: vwrap_state_def)

lemma vwrap_loop_append:
  "vwrap_loop y f c mx ls A st (xs @ ys) =
     vwrap_loop y f c mx ls A st xs @ vwrap_loop y f c mx ls A (vwrap_state y f c mx ls A st xs) ys"
  by (induction xs arbitrary: st) (simp_all add: vwrap_state_def)

lemma vwrap_loop_at:
  assumes "i < length s"
  shows "vwrap_loop y f c mx ls A st s =
     vwrap_loop y f c mx ls A st (take i s)
     @ fst (vwrap_step y f c mx ls A (vwrap_state y f c mx ls A st (take i s)) (s ! i))
     @ vwrap_loop y f c mx ls A
         (snd (vwrap_step y f c mx ls A (vwrap_state y f c mx ls A st (take i s)) (s ! i)))
         (drop (Suc i) s)"
proof -
  have "s = take i s @ (s ! i) # drop (Suc i) s"
    using assms by (simp add: id_take_nth_drop)
  then have "vwrap_loop y f c mx ls A st s =
      vwrap_loop y f c mx ls A st (take i s @ (s ! i) # drop (Suc i) s)"
    by simp
  then show ?thesis
    by (simp only: vwrap_loop_append vwrap_loop.simps)
qed

text \<open>
  Claim C2. In \<^verbatim>\<open>draw_vertical_text_with_wrap\<close> with a wrap width of at least one
  character, let \<open>st\<close> hold the loop variables before the \<open>i\<close>-th character. When the
  count of the column has reached \<open>max_chars\<close> and the character is line-leading
  prohibited, the log of the routine is the log of the characters before, the calls for
  this character and the log of the rest, started in the next column (x less
  \<open>line_spacing\<close>, y back at the origin, count 0). The character is placed in the column
  of \<open>st\<close>, with the offsets of its hanging entry when it has one, and one pitch
  \<open>font_size * char_spacing\<close> higher. There is a character before it, which is no line
  break and was placed in the same column.
\<close>

theorem hanging_punctuation_stays_in_column:
  assumes "i < length s" and "1 \<le> mx"
    and "st = vwrap_state y f c mx ls A (vwrap_init x y) (take i s)"
    and "mx \<le> char_count st"
    and "s ! i \<in> LEADING_PROHIBITED_CHARS"
  shows "draw_vertical_text_with_wrap s x y f c mx ls (Some A) =
           SetFont DEFAULT_FONT f # vwrap_loop y f c mx ls A (vwrap_init x y) (take i s)
           @ fst (vwrap_step y f c mx ls A st (s ! i))
           @ vwrap_loop y f c mx ls A (next_column y ls st) (drop (Suc i) s)
       \<and> anchors None (fst (vwrap_step y f c mx ls A st (s ! i))) =
           [([s ! i], current_x st + x_offset (hanging_adj A (s ! i)),
                      current_y st + y_offset (hanging_adj A (s ! i)) + f * c)]
       \<and> next_column y ls st = \<lparr>current_x = current_x st - ls, current_y = y, char_count = 0\<rparr>
       \<and> 0 < i
       \<and> s ! (i - 1) \<noteq> NEWLINE
       \<and> anchors None (fst (vwrap_step y f c mx ls A
             (vwrap_state y f c mx ls A (vwrap_init x y) (take (i - 1) s)) (s ! (i - 1)))) =
           [([s ! (i - 1)], current_x st + x_offset (dict_get A (s ! (i - 1)) no_adjustment),
                            current_y st + f * c + y_offset (dict_get A (s ! (i - 1)) no_adjustment))]"
proof -
  note hang = vwrap_step_hanging [OF assms(4) assms(5), of y f c ls A]
  have log: "draw_vertical_text_with_wrap s x y f c mx ls (Some A) =
           SetFont DEFAULT_FONT f # vwrap_loop y f c mx ls A (vwrap_init x y) (take i s)
           @ fst (vwrap_step y f c mx ls A st (s ! i))
           @ vwrap_loop y f c mx ls A (next_column y ls st) (drop (Suc i) s)"
    using vwrap_loop_at [OF assms(1), of y f c mx ls A "vwrap_init x y"] hang(2)
    by (simp add: draw_vertical_text_with_wrap_def or_default_def assms(3))
  have pos: "0 < i"
  proof (rule ccontr)
    assume "\<not> 0 < i"
    then have "st = vwrap_init x y" using assms(3) by (simp add: vwrap_state_def)
    then show False using assms(2,4) by (simp add: vwrap_init_def)
  qed
  define st' where "st' = vwrap_state y f c mx ls A (vwrap_init x y) (take (i - 1) s)"
  have "take i s = take (i - 1) s @ [s ! (i - 1)]"
    using pos assms(1) take_Suc_conv_app_nth [of "i - 1" s] by simp
  then have st: "st = snd (vwrap_step y f c mx ls A st' (s ! (i - 1)))"
    using assms(3) by (simp add: vwrap_state_snoc st'_def)
  have cnt: "0 < char_count (snd (vwrap_step y f c mx ls A st' (s ! (i - 1))))"
    using assms(2,4) st by simp
  have prev1: "s ! (i - 1) \<noteq> NEWLINE"
    by (rule vwrap_step_counted(1) [OF cnt])
  have prev2: "anchors None (fst (vwrap_step y f c mx ls A st' (s ! (i - 1)))) =
           [([s ! (i - 1)], current_x st + x_offset (dict_get A (s ! (i - 1)) no_adjustment),
                            current_y st + f * c + y_offset (dict_get A (s ! (i - 1)) no_adjustment))]"
    unfolding st by (rule vwrap_step_counted(2) [OF cnt])
  have col: "next_column y ls st = \<lparr>current_x = current_x st - ls, current_y = y, char_count = 0\<rparr>"
    by (simp add: next_column_def)
  from log hang(1) col pos prev1 prev2 [unfolded st'_def] show ?thesis
    by (intro conjI)
qed

theorem hanging_punctuation_stays_in_column_witness:
  "(2 :: nat) < length [0x3042, 0x3044, 0x3002 :: uchar] \<and> (1 :: int) \<le> 2
   \<and> 2 \<le> char_count (vwrap_state 786 10 1 2 20 PUNCTUATION_ADJUSTMENTS (vwrap_init 152 786)
                 (take 2 [0x3042, 0x3044, 0x3002]))
   \<and> [0x3042, 0x3044, 0x3002 :: uchar] ! 2 \<in> LEADING_PROHIBITED_CHARS
   \<and> anchors None (fst (vwrap_step 786 10 1 2 20 PUNCTUATION_ADJUSTMENTS
         (vwrap_state 786 10 1 2 20 PUNCTUATION_ADJUSTMENTS (vwrap_init 152 786) [0x3042, 0x3044])
         0x3002)) = [([0x3002], 160, 774)]"
proof -
  define st where "st = vwrap_state 786 10 1 2 20 PUNCTUATION_ADJUSTMENTS (vwrap_init 152 786)
    [0x3042, 0x3044]"
  have h3: "st = vwrap_state 786 10 1 2 20 PUNCTUATION_ADJUSTMENTS (vwrap_init 152 786)
    (take 2 [0x3042, 0x3044, 0x3002])"
    by (simp add: st_def)
  have a1: "dict_get PUNCTUATION_ADJUSTMENTS 0x3042 no_adjustment = no_adjustment"
    by (simp add: dict_get_def PUNCTUATION_ADJUSTMENTS_def)
  have a2: "dict_get PUNCTUATION_ADJUSTMENTS 0x3044 no_adjustment = no_adjustment"
    by (simp add: dict_get_def PUNCTUATION_ADJUSTMENTS_def)
  have st_eq: "st = \<lparr>current_x = 152, current_y = 766, char_count = 2\<rparr>"
    by (simp add: st_def vwrap_state_def vwrap_step_def vwrap_init_def NEWLINE_def Let_def
        LEADING_PROHIBITED_CHARS_def a1 a2 no_adjustment_def)
  have h1: "(2 :: nat) < length [0x3042, 0x3044, 0x3002 :: uchar]" by simp
  have h2: "(1 :: int) \<le> 2" by simp
  have h4: "2 \<le> char_count st" by (simp add: st_eq)
  have h5: "[0x3042, 0x3044, 0x3002 :: uchar] ! 2 \<in> LEADING_PROHIBITED_CHARS"
    by (simp add: LEADING_PROHIBITED_CHARS_def)
  have adj: "hanging_adj PUNCTUATION_ADJUSTMENTS 0x3002 = \<lparr>x_offset = 8, y_offset = - 2, angle = None\<rparr>"
    by (simp add: hanging_adj_def HANGING_PUNCTUATION_ADJUSTMENTS_def)
  show ?thesis
    using hanging_punctuation_stays_in_column [OF h1 h2 h3 h4 h5] h4 h5
    by (simp add: adj flip: st_def) (simp add: st_eq)
qed

section \<open>Properties of emulated bold\<close>









lemma split_lines_fit:
  assumes "s \<noteq> []" "length s \<le> m"
  shows "split_lines s m 0 [] = Some [s]"
proof -
  have "split_lines s m (length s) [s] = Some [s]"
    by (subst split_lines.simps) simp
  then show ?thesis
    using assms by (subst split_lines.simps) simp
qed




text \<open>
  Claim C5 fails on a text that fits into one line: the loop takes the rest of the text
  as the last line before it looks for a line break, so a break in the last
  \<open>max_chars\<close> characters stays inside the line. Here the explanation field (25
  characters a line) holds two characters with a line break between them.
\<close>

theorem short_text_keeps_line_break:
  "split_lines [0x3042, NEWLINE, 0x3044] 25 0 [] = Some [[0x3042, NEWLINE, 0x3044]]
   \<and> draw_horizontal_text_with_wrap [0x3042, NEWLINE, 0x3044] 25 170 DEFAULT_FONT 10 25 12 =
       Some [SetFont DEFAULT_FONT 10, SetLineWidth (10 * BOLD_WIDTH_RATIO), SetStrokeColorRGB 0 0 0,
             CodeAppend ''2 Tr'', DrawString 25 170 [0x3042, NEWLINE, 0x3044], CodeAppend ''0 Tr'']"
proof -
  have "split_lines [0x3042, NEWLINE, 0x3044] 25 0 [] = Some [[0x3042, NEWLINE, 0x3044]]"
    by (rule split_lines_fit) simp_all
  then show ?thesis
    by (simp add: draw_horizontal_text_with_wrap_def bold_on_def bold_off_def USE_BOLD_def)
qed

section \<open>The wrap counter against the renderer\<close>

text \<open>
  As long as the text has a character to come, the counter and the renderer take the same
  decisions: after every proper prefix the counter's line number is the renderer's
  column, and both hold the same count of characters in it. For a text that does not end
  with a line break, the count returned is therefore the column in which the last
  character is drawn.
\<close>

lemma step_agrees:
  assumes "int i < int n - 1" and "current_x st = x - of_int (l - 1) * ls"
    and "char_count st = cc"
  shows "current_x (snd (vwrap_step y f c mx ls A st ch)) =
      x - of_int (fst (wrap_count_step mx n (l, cc) (i, ch)) - 1) * ls
    \<and> char_count (snd (vwrap_step y f c mx ls A st ch)) =
      snd (wrap_count_step mx n (l, cc) (i, ch))"
  using assms
  by (auto simp add: vwrap_step_def wrap_count_step_def Let_def next_column_def algebra_simps)

lemma counter_tracks_renderer:
  assumes "length p < n"
  shows "current_x (vwrap_state y f c mx ls A (vwrap_init x y) p) =
      x - of_int (fst (foldl (wrap_count_step mx n) (1, 0) (enumerate 0 p)) - 1) * ls
    \<and> char_count (vwrap_state y f c mx ls A (vwrap_init x y) p) =
      snd (foldl (wrap_count_step mx n) (1, 0) (enumerate 0 p))"
  using assms
proof (induction p rule: rev_induct)
  case Nil
  show ?case by (simp add: vwrap_state_def vwrap_init_def)
next
  case (snoc ch p)
  let ?st = "vwrap_state y f c mx ls A (vwrap_init x y) p"
  let ?cs = "foldl (wrap_count_step mx n) (1, 0) (enumerate 0 p)"
  from snoc.prems have i: "int (length p) < int n - 1" and p: "length p < n" by simp_all
  from snoc.IH [OF p] have x: "current_x ?st = x - of_int (fst ?cs - 1) * ls"
    and k: "char_count ?st = snd ?cs" by simp_all
  have e: "foldl (wrap_count_step mx n) (1, 0) (enumerate 0 (p @ [ch])) =
      wrap_count_step mx n (fst ?cs, snd ?cs) (length p, ch)"
    by (simp add: enumerate_append_eq)
  show ?case
    unfolding e vwrap_state_snoc by (rule step_agrees [OF i x k])
qed

lemma last_step_column:
  assumes "ch \<noteq> NEWLINE" and "\<not> int i < int n - 1"
    and "current_x st = x - of_int (l - 1) * ls" and "char_count st = cc"
  shows "map (\<lambda>a. (fst a, fst (snd a))) (anchors None (fst (vwrap_step y f c mx ls A st ch))) =
      [([ch], x - of_int (fst (wrap_count_step mx n (l, cc) (i, ch)) - 1) * ls
        + x_offset (if mx \<le> cc \<and> ch \<in> LEADING_PROHIBITED_CHARS then hanging_adj A ch
                    else dict_get A ch no_adjustment))]"
proof (cases "mx \<le> cc \<and> ch \<in> LEADING_PROHIBITED_CHARS")
  case True
  then have "mx \<le> char_count st" "ch \<in> LEADING_PROHIBITED_CHARS" using assms(4) by simp_all
  from vwrap_step_hanging(1) [OF this, of y f c ls A] True assms show ?thesis
    by (simp add: wrap_count_step_def Let_def)
next
  case False
  then show ?thesis
    using assms
    by (auto simp add: vwrap_step_def wrap_count_step_def Let_def next_column_def
        anchors_char_block algebra_simps simp del: append.simps)
qed

lemma calculate_wrap_count_last_column:
  fixes x y f c ls :: rat and mx :: int and A :: adjustments and s :: ustring
  assumes "s \<noteq> []" and "last s \<noteq> NEWLINE"
  defines "st \<equiv> vwrap_state y f c mx ls A (vwrap_init x y) (butlast s)"
  shows "draw_vertical_text_with_wrap s x y f c mx ls (Some A) =
      SetFont DEFAULT_FONT f # vwrap_loop y f c mx ls A (vwrap_init x y) (butlast s)
        @ fst (vwrap_step y f c mx ls A st (last s))"
    and "map (\<lambda>a. (fst a, fst (snd a))) (anchors None (fst (vwrap_step y f c mx ls A st (last s)))) =
      [([last s], x - of_int (calculate_wrap_count s mx) * ls
        + x_offset (if mx \<le> char_count st \<and> last s \<in> LEADING_PROHIBITED_CHARS
                    then hanging_adj A (last s) else dict_get A (last s) no_adjustment))]"
proof -
  from assms(1) have s: "s = butlast s @ [last s]" by simp
  have "vwrap_loop y f c mx ls A (vwrap_init x y) (butlast s @ [last s]) =
      vwrap_loop y f c mx ls A (vwrap_init x y) (butlast s)
        @ fst (vwrap_step y f c mx ls A st (last s))"
    by (simp add: vwrap_loop_append st_def)
  with s show "draw_vertical_text_with_wrap s x y f c mx ls (Some A) =
      SetFont DEFAULT_FONT f # vwrap_loop y f c mx ls A (vwrap_init x y) (butlast s)
        @ fst (vwrap_step y f c mx ls A st (last s))"
    by (simp add: draw_vertical_text_with_wrap_def or_default_def)
  let ?cs = "foldl (wrap_count_step mx (length s)) (1, 0) (enumerate 0 (butlast s))"
  from assms(1) have l: "length (butlast s) < length s" by simp
  from counter_tracks_renderer [OF l, of y f c mx ls A x]
  have x: "current_x st = x - of_int (fst ?cs - 1) * ls" and k: "char_count st = snd ?cs"
    by (simp_all add: st_def)
  have i: "\<not> int (length (butlast s)) < int (length s) - 1" by simp
  have "enumerate 0 s = enumerate 0 (butlast s) @ [(length (butlast s), last s)]"
    using s by (metis enumerate_append_eq enumerate_simps add_0)
  then have e: "calculate_wrap_count s mx =
      fst (wrap_count_step mx (length s) (fst ?cs, snd ?cs) (length (butlast s), last s)) - 1"
    using assms(1) by (simp add: calculate_wrap_count_def)
  show "map (\<lambda>a. (fst a, fst (snd a))) (anchors None (fst (vwrap_step y f c mx ls A st (last s)))) =
      [([last s], x - of_int (calculate_wrap_count s mx) * ls
        + x_offset (if mx \<le> char_count st \<and> last s \<in> LEADING_PROHIBITED_CHARS
                    then hanging_adj A (last s) else dict_get A (last s) no_adjustment))]"
    unfolding e k by (rule last_step_column [OF assms(2) i x k [symmetric, THEN sym]])
qed

text \<open>
  Claim C3 fails on a text that ends with a line break. For one character followed by a
  line break, \<^verbatim>\<open>calculate_wrap_count\<close> counts one wrapped column, so that the
  transcription field is anchored at its second candidate position, while
  \<^verbatim>\<open>draw_vertical_text_with_wrap\<close> draws a single character, in the first column.
\<close>

theorem trailing_line_break_is_counted:
  "calculate_wrap_count [0x3042, NEWLINE] 55 = 1
   \<and> wrapped_field_x [152, 162, 172] [0x3042, NEWLINE] 55 0 = Some 162
   \<and> anchors None (draw_vertical_text_with_wrap [0x3042, NEWLINE] 162 786 10 1 55 20
        (Some PUNCTUATION_ADJUSTMENTS)) = [([0x3042], 162, 786)]"
proof -
  have c: "calculate_wrap_count [0x3042, NEWLINE] 55 = 1"
    by (simp add: calculate_wrap_count_def wrap_count_step_def NEWLINE_def
        LEADING_PROHIBITED_CHARS_def Let_def)
  have x: "wrapped_field_x [152, 162, 172] [0x3042, NEWLINE] 55 0 = Some 162"
    by (simp add: wrapped_field_x_def c py_index_def Let_def)
  have a: "dict_get PUNCTUATION_ADJUSTMENTS 0x3042 no_adjustment = no_adjustment"
    by (simp add: dict_get_def PUNCTUATION_ADJUSTMENTS_def)
  have fnt: "dict_get SPECIAL_CHARS_FONT_MAP 0x3042 DEFAULT_FONT = DEFAULT_FONT"
    by (simp add: dict_get_def SPECIAL_CHARS_FONT_MAP_def)
  have s1: "vwrap_step 786 10 1 55 20 PUNCTUATION_ADJUSTMENTS (vwrap_init 162 786) 0x3042 =
      (SetFont DEFAULT_FONT 10 # bold_on 10 @ draw_glyph 10 no_adjustment 0x3042 162 786 @ bold_off,
       \<lparr>current_x = 162, current_y = 776, char_count = 1\<rparr>)"
    by (simp add: vwrap_step_def vwrap_init_def NEWLINE_def Let_def a fnt)
      (simp add: no_adjustment_def)
  have s2: "fst (vwrap_step 786 10 1 55 20 PUNCTUATION_ADJUSTMENTS st NEWLINE) = []" for st
    by (simp add: vwrap_step_def)
  have d: "anchors None (draw_vertical_text_with_wrap [0x3042, NEWLINE] 162 786 10 1 55 20
        (Some PUNCTUATION_ADJUSTMENTS)) = [([0x3042], 162, 786)]"
    by (simp add: draw_vertical_text_with_wrap_def or_default_def s1 s2
        anchors_bold_on anchors_draw_glyph)
      (simp add: bold_off_def)
  from c x d show ?thesis by (intro conjI)
qed

section \<open>Properties of the full-width conversion\<close>

lemma foldl_upd_upt:
  "foldl (\<lambda>t i. t(i \<mapsto> f i)) t0 [a ..< b] c = (if a \<le> c \<and> c < b then Some (f c) else t0 c)"
  by (induction b) auto

lemma trans_table_apply:
  "trans_table c =
    (if 0x21 \<le> c \<and> c < 0x7F then Some (c + 0xFEE0) else if c = 0x20 then Some 0x3000 else None)"
  unfolding trans_table_def foldl_upd_upt by simp

lemma translate_full_width_char: "translate trans_table s = map full_width_char s"
  by (auto simp add: translate_def trans_table_apply full_width_char_def)

lemma full_width_char_katakana [simp]:
  "halfwidth_katakana (full_width_char c) = halfwidth_katakana c"
  by (auto simp add: full_width_char_def halfwidth_katakana_def)

lemma full_width_char_not_half_width:
  "\<not> halfwidth_katakana c \<Longrightarrow> \<not> half_width (full_width_char c)"
  by (auto simp add: full_width_char_def halfwidth_katakana_def half_width_def)

lemma full_width_char_katakana_id: "halfwidth_katakana c \<Longrightarrow> full_width_char c = c"
  by (auto simp add: full_width_char_def halfwidth_katakana_def)

lemma re_sub_runs_none:
  "list_all (\<lambda>c. \<not> cls c) s \<Longrightarrow> re_sub_runs cls repl s = s"
  by (induction s) auto

lemma re_sub_runs_prefix:
  "list_all (\<lambda>c. \<not> cls c) a \<Longrightarrow> re_sub_runs cls repl (a @ s) = a @ re_sub_runs cls repl s"
  by (induction a) auto

lemma re_sub_runs_run:
  assumes "r \<noteq> []" "list_all cls r" "b = [] \<or> \<not> cls (hd b)"
  shows "re_sub_runs cls repl (r @ b) = repl r @ re_sub_runs cls repl b"
proof -
  from assms(1) obtain c cs where r: "r = c # cs" by (cases r) auto
  with assms(2) have c: "cls c" and cs: "\<forall>x\<in>set cs. cls x" by (auto simp add: list_all_iff)
  from assms(3) have tw: "takeWhile cls (cs @ b) = cs" and dw: "dropWhile cls (cs @ b) = b"
    using cs by (cases b; simp add: takeWhile_append2 dropWhile_append2 takeWhile_eq_all_conv)+
  show ?thesis by (simp add: r c tw dw)
qed

lemma to_full_width_Str:
  "to_full_width nfkc (Str s) = Str (re_sub_runs halfwidth_katakana nfkc (map full_width_char s))"
  by (simp add: to_full_width_def translate_full_width_char)

lemma re_sub_runs_segments:
  assumes "list_all (\<lambda>c. \<not> halfwidth_katakana c) a" "list_all halfwidth_katakana r"
    "b = [] \<or> \<not> halfwidth_katakana (hd b)"
  shows "re_sub_runs halfwidth_katakana nfkc (map full_width_char (a @ r @ b)) =
    map full_width_char a @ (if r = [] then [] else nfkc r)
      @ re_sub_runs halfwidth_katakana nfkc (map full_width_char b)"
proof -
  have a: "list_all (\<lambda>c. \<not> halfwidth_katakana c) (map full_width_char a)"
    using assms(1) by (simp add: list_all_iff)
  have r: "map full_width_char r = r"
    using assms(2) by (simp add: list_all_iff map_idI full_width_char_katakana_id)
  have b: "map full_width_char b = [] \<or> \<not> halfwidth_katakana (hd (map full_width_char b))"
    using assms(3) by (cases b) auto
  show ?thesis
  proof (cases "r = []")
    case True
    then show ?thesis by (simp add: re_sub_runs_prefix [OF a])
  next
    case False
    then show ?thesis
      using re_sub_runs_run [OF False assms(2) b, of nfkc]
      by (simp add: re_sub_runs_prefix [OF a] r)
  qed
qed

lemma mapping_range:
  assumes "halfwidth_katakana c"
  shows "0x3001 \<le> HALFWIDTH_KATAKANA_MAPPING ! (c - 0xFF61)
    \<and> HALFWIDTH_KATAKANA_MAPPING ! (c - 0xFF61) \<le> 0x30FC"
proof -
  have all: "list_all (\<lambda>d. 0x3001 \<le> d \<and> d \<le> 0x30FC) HALFWIDTH_KATAKANA_MAPPING"
    by (simp add: HALFWIDTH_KATAKANA_MAPPING_def)
  have len: "length HALFWIDTH_KATAKANA_MAPPING = 63"
    by (simp add: HALFWIDTH_KATAKANA_MAPPING_def)
  from assms have "c - 0xFF61 < length HALFWIDTH_KATAKANA_MAPPING"
    unfolding len halfwidth_katakana_def by arith
  then have "HALFWIDTH_KATAKANA_MAPPING ! (c - 0xFF61) \<in> set HALFWIDTH_KATAKANA_MAPPING"
    by (rule nth_mem)
  with all show ?thesis by (simp add: list_all_iff)
qed

lemma composition_range:
  assumes "map_of KATAKANA_COMPOSITION k = Some p"
  shows "0x3001 \<le> p \<and> p \<le> 0x30FC"
proof -
  have all: "list_all (\<lambda>e. 0x3001 \<le> snd e \<and> snd e \<le> 0x30FC) KATAKANA_COMPOSITION"
    by (simp add: KATAKANA_COMPOSITION_def)
  from assms have "(k, p) \<in> set KATAKANA_COMPOSITION" by (rule map_of_SomeD)
  with all show ?thesis by (auto simp add: list_all_iff)
qed

lemma compose_marks_range:
  "list_all (\<lambda>d. 0x3001 \<le> d \<and> d \<le> (0x30FC :: nat)) s \<Longrightarrow>
   list_all (\<lambda>d. 0x3001 \<le> d \<and> d \<le> 0x30FC) (compose_marks s)"
  by (induction s rule: compose_marks.induct)
    (auto split: option.splits dest: composition_range)

lemma nfkc_halfwidth_katakana_full_width:
  assumes "list_all halfwidth_katakana r"
  shows "list_all (\<lambda>c. \<not> half_width c) (nfkc_halfwidth_katakana r)"
proof -
  have "list_all (\<lambda>d. 0x3001 \<le> d \<and> d \<le> (0x30FC :: nat))
      (map (\<lambda>c. if halfwidth_katakana c then HALFWIDTH_KATAKANA_MAPPING ! (c - 0xFF61) else c) r)"
    using assms mapping_range by (simp add: list_all_iff)
  then have "list_all (\<lambda>d. 0x3001 \<le> d \<and> d \<le> (0x30FC :: nat)) (nfkc_halfwidth_katakana r)"
    unfolding nfkc_halfwidth_katakana_def by (rule compose_marks_range)
  then show ?thesis
    by (auto simp add: list_all_iff half_width_def halfwidth_katakana_def)
qed

lemma re_sub_runs_all:
  assumes "\<And>r. r \<noteq> [] \<Longrightarrow> list_all cls r \<Longrightarrow> list_all P (repl r)"
    and "list_all (\<lambda>c. cls c \<or> P c) s"
  shows "list_all P (re_sub_runs cls repl s)"
  using assms
proof (induction cls repl s rule: re_sub_runs.induct)
  case (1 cls repl)
  then show ?case by simp
next
  case (2 cls repl c cs)
  show ?case
  proof (cases "cls c")
    case True
    have "list_all cls (c # takeWhile cls cs)"
      using True by (auto simp add: list_all_iff dest: set_takeWhileD)
    then have n: "list_all P (repl (c # takeWhile cls cs))"
      by (intro "2.prems"(1)) simp_all
    have "list_all (\<lambda>c. cls c \<or> P c) (dropWhile cls cs)"
      using "2.prems"(2) by (auto simp add: list_all_iff dest: set_dropWhileD)
    with "2.IH"(1) [OF True "2.prems"(1)] n True show ?thesis by simp
  next
    case False
    with "2.IH"(2) [OF False "2.prems"(1)] "2.prems"(2) show ?thesis by simp
  qed
qed

lemma re_sub_runs_full_width:
  assumes "\<And>r. r \<noteq> [] \<Longrightarrow> list_all halfwidth_katakana r \<Longrightarrow> list_all (\<lambda>c. \<not> half_width c) (nfkc r)"
  shows "list_all (\<lambda>c. \<not> half_width c) (re_sub_runs halfwidth_katakana nfkc (map full_width_char s))"
proof (rule re_sub_runs_all)
  show "list_all (\<lambda>c. halfwidth_katakana c \<or> \<not> half_width c) (map full_width_char s)"
    using full_width_char_not_half_width by (auto simp add: list_all_iff)
qed (rule assms)

lemma full_width_char_fixed: "\<not> half_width c \<Longrightarrow> full_width_char c = c"
  by (auto simp add: full_width_char_def half_width_def)

lemma to_full_width_fixed:
  assumes "list_all (\<lambda>c. \<not> half_width c) s"
  shows "to_full_width nfkc (Str s) = Str s"
proof -
  from assms have m: "map full_width_char s = s"
    by (simp add: list_all_iff map_idI full_width_char_fixed)
  from assms have "list_all (\<lambda>c. \<not> halfwidth_katakana c) s"
    by (simp add: list_all_iff half_width_def)
  then show ?thesis by (simp add: to_full_width_Str m re_sub_runs_none)
qed

lemma to_full_width_twice:
  assumes "\<And>r. r \<noteq> [] \<Longrightarrow> list_all halfwidth_katakana r \<Longrightarrow> list_all (\<lambda>c. \<not> half_width c) (nfkc r)"
  shows "to_full_width nfkc (to_full_width nfkc v) = to_full_width nfkc v"
proof (cases v)
  case NaN
  then show ?thesis by (simp add: to_full_width_def)
next
  case (Str s)
  show ?thesis
    unfolding Str to_full_width_Str [of nfkc s]
    by (rule to_full_width_fixed) (rule re_sub_runs_full_width [OF assms])
qed

text \<open>
  Claim C9. A text is a stretch \<open>a\<close> without half-width katakana, then a maximal run \<open>r\<close>
  of half-width katakana, then a rest \<open>b\<close> (empty, or starting with another character).
  \<^verbatim>\<open>to_full_width\<close> shifts the printable ASCII characters of \<open>a\<close> by \<open>0xFEE0\<close>, turns its
  spaces into ideographic spaces and keeps its other characters, replaces the run by its
  normal form NFKC, and goes on with the rest in the same way. The two examples of the
  specification hold, the second with the normal form taken from the Unicode character
  database.
\<close>

theorem to_full_width_by_segments:
  assumes "list_all (\<lambda>c. \<not> halfwidth_katakana c) a" and "list_all halfwidth_katakana r"
    and "b = [] \<or> \<not> halfwidth_katakana (hd b)"
    and "to_full_width nfkc (Str b) = Str b'"
  shows "to_full_width nfkc (Str (a @ r @ b)) =
      Str (map full_width_char a @ (if r = [] then [] else nfkc r) @ b')
    \<and> to_full_width nfkc (Str [0x41, 0x42, 0x43, 0x20, 0x31, 0x32, 0x33]) =
        Str [0xFF21, 0xFF22, 0xFF23, 0x3000, 0xFF11, 0xFF12, 0xFF13]
    \<and> to_full_width nfkc_halfwidth_katakana (Str [0xFF71, 0xFF72, 0xFF73]) =
        Str [0x30A2, 0x30A4, 0x30A6]"
proof -
  from assms(4) have "re_sub_runs halfwidth_katakana nfkc (map full_width_char b) = b'"
    by (simp add: to_full_width_Str)
  then have 1: "to_full_width nfkc (Str (a @ r @ b)) =
      Str (map full_width_char a @ (if r = [] then [] else nfkc r) @ b')"
    unfolding to_full_width_Str re_sub_runs_segments [OF assms(1-3)] by simp
  have 2: "to_full_width nfkc (Str [0x41, 0x42, 0x43, 0x20, 0x31, 0x32, 0x33]) =
      Str [0xFF21, 0xFF22, 0xFF23, 0x3000, 0xFF11, 0xFF12, 0xFF13]"
    by (simp add: to_full_width_Str full_width_char_def halfwidth_katakana_def)
  have 3: "to_full_width nfkc_halfwidth_katakana (Str [0xFF71, 0xFF72, 0xFF73]) =
      Str [0x30A2, 0x30A4, 0x30A6]"
    by (simp add: to_full_width_Str full_width_char_def halfwidth_katakana_def
        nfkc_halfwidth_katakana_def HALFWIDTH_KATAKANA_MAPPING_def KATAKANA_COMPOSITION_def)
  from 1 2 3 show ?thesis by (intro conjI)
qed

theorem to_full_width_by_segments_witness:
  "list_all (\<lambda>c. \<not> halfwidth_katakana c) [0x41, 0x20]
   \<and> list_all halfwidth_katakana [0xFF76, 0xFF9E, 0xFF77]
   \<and> to_full_width nfkc_halfwidth_katakana (Str [0x78]) = Str [0xFF58]
   \<and> to_full_width nfkc_halfwidth_katakana (Str [0x41, 0x20, 0xFF76, 0xFF9E, 0xFF77, 0x78]) =
       Str [0xFF21, 0x3000, 0x30AC, 0x30AD, 0xFF58]"
proof -
  have a: "list_all (\<lambda>c. \<not> halfwidth_katakana c) [0x41, 0x20]"
    by (simp add: halfwidth_katakana_def)
  have r: "list_all halfwidth_katakana [0xFF76, 0xFF9E, 0xFF77]"
    by (simp add: halfwidth_katakana_def)
  have b: "[0x78] = [] \<or> \<not> halfwidth_katakana (hd [0x78])"
    by (simp add: halfwidth_katakana_def)
  have b': "to_full_width nfkc_halfwidth_katakana (Str [0x78]) = Str [0xFF58]"
    by (simp add: to_full_width_Str full_width_char_def halfwidth_katakana_def)
  have n: "nfkc_halfwidth_katakana [0xFF76, 0xFF9E, 0xFF77] = [0x30AC, 0x30AD]"
    by (simp add: nfkc_halfwidth_katakana_def halfwidth_katakana_def
        HALFWIDTH_KATAKANA_MAPPING_def KATAKANA_COMPOSITION_def)
  from to_full_width_by_segments [OF a r b b'] a r b' show ?thesis
    by (simp add: n full_width_char_def)
qed

text \<open>
  Claim C10. \<^verbatim>\<open>to_full_width\<close> is idempotent, given that the normal form NFKC of a run of
  half-width katakana holds no ASCII character from the space to the tilde and no
  half-width katakana. Every character of the first result is then outside the two input
  domains of the function, and the second application changes nothing. The normal form
  of the Unicode character database is such a normaliser, so that with it the function is
  idempotent on every value.
\<close>

theorem to_full_width_idempotent:
  assumes "\<And>r. r \<noteq> [] \<Longrightarrow> list_all halfwidth_katakana r \<Longrightarrow> list_all (\<lambda>c. \<not> half_width c) (nfkc r)"
  shows "to_full_width nfkc (to_full_width nfkc v) = to_full_width nfkc v
    \<and> (\<forall>s t. to_full_width nfkc (Str s) = Str t \<longrightarrow> list_all (\<lambda>c. \<not> half_width c) t)
    \<and> to_full_width nfkc_halfwidth_katakana (to_full_width nfkc_halfwidth_katakana v) =
        to_full_width nfkc_halfwidth_katakana v"
proof -
  have "list_all (\<lambda>c. \<not> half_width c) t" if "to_full_width nfkc (Str s) = Str t" for s t
    using that re_sub_runs_full_width [of nfkc s] assms by (simp add: to_full_width_Str)
  moreover have "to_full_width nfkc_halfwidth_katakana (to_full_width nfkc_halfwidth_katakana v) =
      to_full_width nfkc_halfwidth_katakana v"
    by (rule to_full_width_twice) (rule nfkc_halfwidth_katakana_full_width)
  ultimately show ?thesis using to_full_width_twice [of nfkc v] assms by blast
qed

theorem to_full_width_idempotent_witness:
  "list_all (\<lambda>c. \<not> half_width c) (nfkc_halfwidth_katakana [0xFF8A, 0xFF9F])
   \<and> to_full_width nfkc_halfwidth_katakana (Str [0x41, 0x20, 0xFF8A, 0xFF9F]) =
       Str [0xFF21, 0x3000, 0x30D1]
   \<and> to_full_width nfkc_halfwidth_katakana
       (to_full_width nfkc_halfwidth_katakana (Str [0x41, 0x20, 0xFF8A, 0xFF9F])) =
       Str [0xFF21, 0x3000, 0x30D1]"
proof -
  have e: "to_full_width nfkc_halfwidth_katakana (Str [0x41, 0x20, 0xFF8A, 0xFF9F]) =
      Str [0xFF21, 0x3000, 0x30D1]"
    by (simp add: to_full_width_Str full_width_char_def halfwidth_katakana_def
        nfkc_halfwidth_katakana_def HALFWIDTH_KATAKANA_MAPPING_def KATAKANA_COMPOSITION_def)
  from to_full_width_idempotent [of nfkc_halfwidth_katakana "Str [0x41, 0x20, 0xFF8A, 0xFF9F]",
      OF nfkc_halfwidth_katakana_full_width]
  show ?thesis by (simp add: e nfkc_halfwidth_katakana_full_width halfwidth_katakana_def)
qed

section \<open>Properties of the row preprocessor\<close>

lemmas names =
  RINSHO_KAISETSU_def SAKUHIN_KEISHIKI_def SHAKUBUN_def SHAKUBUN_RINSHO_def SHAKUBUN_SOSAKU_def
  SAKUHINMEI_def SAKUHINMEI_RINSHO_def SAKUHINMEI_SOSAKU_def KOMENTO_def KOMENTO_RINSHO_def
  KOMENTO_SOSAKU_def SAKUSHAMEI_def SAKUHIN_JOHO_KAISETSU_def TIMESTAMP_def GAKUBU_def
  GAKUNEN_def GAKUBU_GAKUNEN_def SOSAKU_NO_SHURUI_def SAKUHIN_JOHO_def FURIGANA_def
  SAITEISHUTSU_def RIN_def NASHI_def NIKAI_IJO_def YABAIYO_def

text \<open>
  Claim C8. The work information of the explanation sheet: the work name in corner
  brackets when the author is \<open>none\<close>; the author and the work name in corner brackets
  when the author is not \<open>none\<close> and the work is a copy; the empty string otherwise. A
  field that the row does not have counts as empty.
\<close>

theorem combine_work_name_for_exp_cases:
  "(row SAKUSHAMEI = Some (Str NASHI) \<longrightarrow>
      combine_work_name_for_exp row =
        Str ([0x300C] @ str_or_empty (row_get row SAKUHINMEI (Str [])) @ [0x300D]))
   \<and> (row SAKUSHAMEI \<noteq> Some (Str NASHI) \<and> row SAKUHIN_KEISHIKI = Some (Str RIN) \<longrightarrow>
      combine_work_name_for_exp row =
        Str (str_or_empty (row_get row SAKUSHAMEI (Str [])) @ [0x300C]
             @ str_or_empty (row_get row SAKUHINMEI (Str [])) @ [0x300D]))
   \<and> (row SAKUSHAMEI \<noteq> Some (Str NASHI) \<and> row SAKUHIN_KEISHIKI \<noteq> Some (Str RIN) \<longrightarrow>
      combine_work_name_for_exp row = Str [])
   \<and> combine_work_name_for_exp [SAKUSHAMEI \<mapsto> Str NASHI, SAKUHINMEI \<mapsto> Str [0x685C]] =
       Str [0x300C, 0x685C, 0x300D]
   \<and> combine_work_name_for_exp
       [SAKUHIN_KEISHIKI \<mapsto> Str RIN, SAKUSHAMEI \<mapsto> Str [0x5C71, 0x7530],
        SAKUHINMEI \<mapsto> Str [0x685C]] =
       Str [0x5C71, 0x7530, 0x300C, 0x685C, 0x300D]"
proof -
  have n: "str_or_empty (row_get row SAKUSHAMEI (Str [])) = NASHI \<longleftrightarrow>
      row SAKUSHAMEI = Some (Str NASHI)"
    by (auto simp add: str_or_empty_def row_get_def NASHI_def split: option.splits pyval.splits)
  have r: "str_or_empty (row_get row SAKUHIN_KEISHIKI (Str [])) = RIN \<longleftrightarrow>
      row SAKUHIN_KEISHIKI = Some (Str RIN)"
    by (auto simp add: str_or_empty_def row_get_def RIN_def split: option.splits pyval.splits)
  have 1: "row SAKUSHAMEI = Some (Str NASHI) \<longrightarrow>
      combine_work_name_for_exp row =
        Str ([0x300C] @ str_or_empty (row_get row SAKUHINMEI (Str [])) @ [0x300D])"
    using n by (simp add: combine_work_name_for_exp_def Let_def)
  have 2: "row SAKUSHAMEI \<noteq> Some (Str NASHI) \<and> row SAKUHIN_KEISHIKI = Some (Str RIN) \<longrightarrow>
      combine_work_name_for_exp row =
        Str (str_or_empty (row_get row SAKUSHAMEI (Str [])) @ [0x300C]
             @ str_or_empty (row_get row SAKUHINMEI (Str [])) @ [0x300D])"
    using n r by (simp add: combine_work_name_for_exp_def Let_def)
  have 3: "row SAKUSHAMEI \<noteq> Some (Str NASHI) \<and> row SAKUHIN_KEISHIKI \<noteq> Some (Str RIN) \<longrightarrow>
      combine_work_name_for_exp row = Str []"
    using n r by (simp add: combine_work_name_for_exp_def Let_def)
  have 4: "combine_work_name_for_exp [SAKUSHAMEI \<mapsto> Str NASHI, SAKUHINMEI \<mapsto> Str [0x685C]] =
       Str [0x300C, 0x685C, 0x300D]"
    by (simp add: combine_work_name_for_exp_def Let_def row_get_def str_or_empty_def names)
  have 5: "combine_work_name_for_exp
       [SAKUHIN_KEISHIKI \<mapsto> Str RIN, SAKUSHAMEI \<mapsto> Str [0x5C71, 0x7530],
        SAKUHINMEI \<mapsto> Str [0x685C]] =
       Str [0x5C71, 0x7530, 0x300C, 0x685C, 0x300D]"
    by (simp add: combine_work_name_for_exp_def Let_def row_get_def str_or_empty_def names)
  from 1 2 3 4 5 show ?thesis by (intro conjI)
qed

theorem combine_work_name_for_exp_cases_witness:
  "combine_work_name_for_exp [SAKUSHAMEI \<mapsto> Str NASHI, SAKUHINMEI \<mapsto> Str [0x685C, 0x685C]] =
     Str [0x300C, 0x685C, 0x685C, 0x300D]
   \<and> combine_work_name_for_exp
       [SAKUHIN_KEISHIKI \<mapsto> Str RIN, SAKUSHAMEI \<mapsto> Str [0x5C71], SAKUHINMEI \<mapsto> Str [0x685C]] =
       Str [0x5C71, 0x300C, 0x685C, 0x300D]
   \<and> combine_work_name_for_exp [SAKUSHAMEI \<mapsto> Str [0x5C71], SAKUHINMEI \<mapsto> Str [0x685C]] = Str []"
  using combine_work_name_for_exp_cases
      [of "[SAKUSHAMEI \<mapsto> Str NASHI, SAKUHINMEI \<mapsto> Str [0x685C, 0x685C]]"]
    combine_work_name_for_exp_cases
      [of "[SAKUHIN_KEISHIKI \<mapsto> Str RIN, SAKUSHAMEI \<mapsto> Str [0x5C71], SAKUHINMEI \<mapsto> Str [0x685C]]"]
    combine_work_name_for_exp_cases
      [of "[SAKUSHAMEI \<mapsto> Str [0x5C71], SAKUHINMEI \<mapsto> Str [0x685C]]"]
  by (simp add: row_get_def str_or_empty_def names)

subsection \<open>Applying the preprocessor twice\<close>

lemma keeps_refl: "keeps W d d"
  by (simp add: keeps_def)

lemma keeps_trans: "keeps W d d' \<Longrightarrow> keeps W d' d'' \<Longrightarrow> keeps W d d''"
  by (simp add: keeps_def)

lemma keeps_mono: "keeps W d d' \<Longrightarrow> W \<subseteq> W' \<Longrightarrow> keeps W' d d'"
  by (auto simp add: keeps_def)

lemma then_do_Inr: "then_do m f = Inr y \<longleftrightarrow> (\<exists>x. m = Inr x \<and> f x = Inr y)"
  by (cases m) (simp_all add: then_do_def)

lemma keeps_assign: "keeps {c} d (assign d c f)"
  by (auto simp add: keeps_def assign_def)

lemma keeps_drop_columns: "keeps (set cs) d (drop_columns d cs)"
  by (auto simp add: keeps_def drop_columns_def)

lemma keeps_move_column: "move_column d loc c = Inr d' \<Longrightarrow> keeps {} d d'"
proof -
  assume a: "move_column d loc c = Inr d'"
  then have c: "c \<in> set (columns d)" and l: "loc \<le> length (removeAll c (columns d))"
    and d': "d' = d\<lparr>columns := take loc (removeAll c (columns d)) @ c # drop loc (removeAll c (columns d))\<rparr>"
    by (auto simp add: move_column_def Let_def split: if_splits)
  have "set (take loc xs) \<union> set (drop loc xs) = set xs" for xs :: "ustring list"
    by (metis append_take_drop_id set_append)
  then have "set (take loc (removeAll c (columns d)) @ c # drop loc (removeAll c (columns d)))
      = insert c (set (removeAll c (columns d)))"
    by simp
  also have "\<dots> = set (columns d)" using c by auto
  finally show ?thesis by (simp add: keeps_def d')
qed

lemma nth_list_update_apply:
  "j < length xs \<Longrightarrow> (xs[i := x] ! j) = (if i = j then x else xs ! j)"
  by (cases "i = j") simp_all

lemma keeps_at_set: "keeps {c} d (at_set d i c v)"
  by (auto simp add: keeps_def at_set_def Let_def nth_list_update_apply)

lemma at_set_same:
  "i < length (rows d) \<Longrightarrow> (rows (at_set d i c v) ! i) c = Some v"
  by (simp add: at_set_def Let_def)

lemma at_set_column: "c \<in> set (columns (at_set d i c v))"
  by (simp add: at_set_def Let_def)

lemma at_set_other_row:
  "c \<in> set (columns d) \<Longrightarrow> j \<noteq> i \<Longrightarrow> rows (at_set d i c v) ! j = rows d ! j"
  by (simp add: at_set_def Let_def)

lemma at_set_other:
  "c' \<in> set (columns d) \<Longrightarrow> j \<noteq> i \<Longrightarrow> j < length (rows d) \<Longrightarrow>
   (rows (at_set d i c v) ! j) c' = (rows d ! j) c'"
  by (auto simp add: at_set_def Let_def)

lemma at_set_columns: "set (columns (at_set d i c v)) = insert c (set (columns d))"
  by (auto simp add: at_set_def Let_def)

lemma at_set_length: "length (rows (at_set d i c v)) = length (rows d)"
  by (simp add: at_set_def Let_def)

lemma row_item_Inr: "row_item r c = Inr v \<longleftrightarrow> r c = Some v"
  by (simp add: row_item_def split: option.splits)

lemma work_type_RIN:
  "str_or_empty (row_get r SAKUHIN_KEISHIKI (Str [])) = RIN \<longleftrightarrow> r SAKUHIN_KEISHIKI = Some (Str RIN)"
  by (auto simp add: str_or_empty_def row_get_def RIN_def split: option.splits pyval.splits)

lemma format_row_result:
  assumes "format_row d (i, r) = Inr d'"
  obtains v1 v2 v3 where
    "d' = at_set (at_set (at_set d i SHAKUBUN v1) i SAKUHINMEI v2) i KOMENTO v3"
    "(if r SAKUHIN_KEISHIKI = Some (Str RIN) then r SHAKUBUN_RINSHO else r SHAKUBUN_SOSAKU) = Some v1"
    "(if r SAKUHIN_KEISHIKI = Some (Str RIN) then r KOMENTO_RINSHO else r KOMENTO_SOSAKU) = Some v3"
  using assms
  by (auto simp add: format_row_def Let_def work_type_RIN then_do_Inr row_item_Inr split: if_splits)

lemma format_row_keeps:
  assumes "format_row d ir = Inr d'"
  shows "keeps {SHAKUBUN, SAKUHINMEI, KOMENTO} d d'"
proof -
  from assms obtain v1 v2 v3 where
    d': "d' = at_set (at_set (at_set d (fst ir) SHAKUBUN v1) (fst ir) SAKUHINMEI v2) (fst ir) KOMENTO v3"
    by (cases ir) (auto elim: format_row_result)
  have "keeps {SHAKUBUN, SAKUHINMEI, KOMENTO} d (at_set d (fst ir) SHAKUBUN v1)"
    by (rule keeps_mono [OF keeps_at_set]) simp
  moreover have "keeps {SHAKUBUN, SAKUHINMEI, KOMENTO} (at_set d (fst ir) SHAKUBUN v1)
      (at_set (at_set d (fst ir) SHAKUBUN v1) (fst ir) SAKUHINMEI v2)"
    by (rule keeps_mono [OF keeps_at_set]) simp
  moreover have "keeps {SHAKUBUN, SAKUHINMEI, KOMENTO}
      (at_set (at_set d (fst ir) SHAKUBUN v1) (fst ir) SAKUHINMEI v2) d'"
    unfolding d' by (rule keeps_mono [OF keeps_at_set]) simp
  ultimately show ?thesis by (blast intro: keeps_trans)
qed

lemma format_row_columns:
  assumes "format_row d ir = Inr d'"
  shows "set (columns d') = set (columns d) \<union> {SHAKUBUN, SAKUHINMEI, KOMENTO}"
proof -
  from assms obtain v1 v2 v3 where
    d': "d' = at_set (at_set (at_set d (fst ir) SHAKUBUN v1) (fst ir) SAKUHINMEI v2) (fst ir) KOMENTO v3"
    by (cases ir) (auto elim: format_row_result)
  show ?thesis unfolding d' by (auto simp add: at_set_columns)
qed

lemma format_row_selected:
  assumes "format_row d (i, r) = Inr d'" and "i < length (rows d)"
  shows "(rows d' ! i) SHAKUBUN =
      (if r SAKUHIN_KEISHIKI = Some (Str RIN) then r SHAKUBUN_RINSHO else r SHAKUBUN_SOSAKU)"
    and "(rows d' ! i) KOMENTO =
      (if r SAKUHIN_KEISHIKI = Some (Str RIN) then r KOMENTO_RINSHO else r KOMENTO_SOSAKU)"
proof -
  from assms(1) obtain v1 v2 v3 where
    d': "d' = at_set (at_set (at_set d i SHAKUBUN v1) i SAKUHINMEI v2) i KOMENTO v3"
    and v1: "(if r SAKUHIN_KEISHIKI = Some (Str RIN) then r SHAKUBUN_RINSHO else r SHAKUBUN_SOSAKU) = Some v1"
    and v3: "(if r SAKUHIN_KEISHIKI = Some (Str RIN) then r KOMENTO_RINSHO else r KOMENTO_SOSAKU) = Some v3"
    by (rule format_row_result)
  let ?d1 = "at_set d i SHAKUBUN v1"
  let ?d2 = "at_set ?d1 i SAKUHINMEI v2"
  have k3: "keeps {KOMENTO} ?d2 d'" unfolding d' by (rule keeps_at_set)
  have k2: "keeps {SAKUHINMEI} ?d1 ?d2" by (rule keeps_at_set)
  have l: "i < length (rows ?d1)" "i < length (rows ?d2)"
    using assms(2) by (simp_all add: at_set_length)
  have "(rows d' ! i) SHAKUBUN = (rows ?d2 ! i) SHAKUBUN"
    using k3 l by (simp add: keeps_def names)
  also have "\<dots> = (rows ?d1 ! i) SHAKUBUN"
    using k2 l by (simp add: keeps_def names)
  also have "\<dots> = Some v1" using assms(2) by (rule at_set_same)
  finally show "(rows d' ! i) SHAKUBUN =
      (if r SAKUHIN_KEISHIKI = Some (Str RIN) then r SHAKUBUN_RINSHO else r SHAKUBUN_SOSAKU)"
    by (simp only: v1)
  have "(rows d' ! i) KOMENTO = Some v3"
    unfolding d' using l(2) by (rule at_set_same)
  then show "(rows d' ! i) KOMENTO =
      (if r SAKUHIN_KEISHIKI = Some (Str RIN) then r KOMENTO_RINSHO else r KOMENTO_SOSAKU)"
    by (simp only: v3)
qed

lemma format_row_other:
  assumes "format_row d (i, r) = Inr d'" and "j \<noteq> i" and "j < length (rows d)"
    and "c \<in> set (columns d)"
  shows "(rows d' ! j) c = (rows d ! j) c"
proof -
  from assms(1) obtain v1 v2 v3 where
    d': "d' = at_set (at_set (at_set d i SHAKUBUN v1) i SAKUHINMEI v2) i KOMENTO v3"
    by (rule format_row_result)
  show ?thesis
    unfolding d' using assms(2-4)
    by (simp add: at_set_other at_set_columns at_set_length)
qed

lemma format_loop_keeps:
  "format_loop irs d = Inr d' \<Longrightarrow> keeps {SHAKUBUN, SAKUHINMEI, KOMENTO} d d'"
proof (induction irs arbitrary: d)
  case Nil
  then show ?case by (simp add: keeps_refl)
next
  case (Cons ir irs)
  from Cons.prems obtain d1 where 1: "format_row d ir = Inr d1" and 2: "format_loop irs d1 = Inr d'"
    by (auto simp add: then_do_Inr)
  from format_row_keeps [OF 1] Cons.IH [OF 2] show ?case by (rule keeps_trans)
qed

lemma format_loop_columns:
  "format_loop irs d = Inr d' \<Longrightarrow> set (columns d) \<subseteq> set (columns d')"
proof (induction irs arbitrary: d)
  case Nil
  then show ?case by simp
next
  case (Cons ir irs)
  from Cons.prems obtain d1 where 1: "format_row d ir = Inr d1" and 2: "format_loop irs d1 = Inr d'"
    by (auto simp add: then_do_Inr)
  from format_row_columns [OF 1] Cons.IH [OF 2] show ?case by auto
qed

lemma format_loop_other:
  "format_loop irs d = Inr d' \<Longrightarrow> j \<notin> fst ` set irs \<Longrightarrow> j < length (rows d) \<Longrightarrow>
   c \<in> set (columns d) \<Longrightarrow> (rows d' ! j) c = (rows d ! j) c"
proof (induction irs arbitrary: d)
  case Nil
  then show ?case by simp
next
  case (Cons ir irs)
  obtain i r where ir: "ir = (i, r)" by (cases ir)
  from Cons.prems(1) obtain d1 where 1: "format_row d (i, r) = Inr d1"
    and 2: "format_loop irs d1 = Inr d'"
    by (auto simp add: then_do_Inr ir)
  from Cons.prems(2) have ji: "j \<noteq> i" and j: "j \<notin> fst ` set irs" by (auto simp add: ir)
  have l: "j < length (rows d1)"
    using format_row_keeps [OF 1] Cons.prems(3) by (simp add: keeps_def)
  have c: "c \<in> set (columns d1)"
    using format_row_columns [OF 1] Cons.prems(4) by simp
  have "(rows d' ! j) c = (rows d1 ! j) c" by (rule Cons.IH [OF 2 j l c])
  also have "\<dots> = (rows d ! j) c" by (rule format_row_other [OF 1 ji Cons.prems(3,4)])
  finally show ?case .
qed

lemma format_loop_selected:
  assumes "format_loop irs d = Inr d'" and "distinct (map fst irs)" and "(i, r) \<in> set irs"
    and "i < length (rows d)"
  shows "(rows d' ! i) SHAKUBUN =
      (if r SAKUHIN_KEISHIKI = Some (Str RIN) then r SHAKUBUN_RINSHO else r SHAKUBUN_SOSAKU)
    \<and> (rows d' ! i) KOMENTO =
      (if r SAKUHIN_KEISHIKI = Some (Str RIN) then r KOMENTO_RINSHO else r KOMENTO_SOSAKU)
    \<and> SHAKUBUN \<in> set (columns d') \<and> KOMENTO \<in> set (columns d')"
  using assms
proof (induction irs arbitrary: d)
  case Nil
  then show ?case by simp
next
  case (Cons ir irs)
  from Cons.prems(1) obtain d1 where 1: "format_row d ir = Inr d1"
    and 2: "format_loop irs d1 = Inr d'"
    by (auto simp add: then_do_Inr)
  have l: "i < length (rows d1)"
    using format_row_keeps [OF 1] Cons.prems(4) by (simp add: keeps_def)
  show ?case
  proof (cases "ir = (i, r)")
    case True
    with Cons.prems(2) have i: "i \<notin> fst ` set irs" by auto
    have cs: "SHAKUBUN \<in> set (columns d1)" "KOMENTO \<in> set (columns d1)"
      using format_row_columns [OF 1] by simp_all
    from 1 True have r1: "format_row d (i, r) = Inr d1" by simp
    show ?thesis
      using format_loop_other [OF 2 i l cs(1)] format_loop_other [OF 2 i l cs(2)]
        format_row_selected [OF r1 Cons.prems(4)] format_loop_columns [OF 2] cs
      by auto
  next
    case False
    with Cons.prems(3) have "(i, r) \<in> set irs" by simp
    moreover from Cons.prems(2) have "distinct (map fst irs)" by simp
    ultimately show ?thesis using Cons.IH [OF 2] l by blast
  qed
qed

lemma format_df_keeps:
  "format_df d = Inr d' \<Longrightarrow> keeps {SHAKUBUN, SAKUHINMEI, KOMENTO} d d'"
  unfolding format_df_def by (rule format_loop_keeps)

lemma format_df_selected:
  assumes "format_df d = Inr d'" and "i < length (rows d)"
  shows "(rows d' ! i) SHAKUBUN =
      (if (rows d ! i) SAKUHIN_KEISHIKI = Some (Str RIN) then (rows d ! i) SHAKUBUN_RINSHO
       else (rows d ! i) SHAKUBUN_SOSAKU)
    \<and> (rows d' ! i) KOMENTO =
      (if (rows d ! i) SAKUHIN_KEISHIKI = Some (Str RIN) then (rows d ! i) KOMENTO_RINSHO
       else (rows d ! i) KOMENTO_SOSAKU)
    \<and> SHAKUBUN \<in> set (columns d') \<and> KOMENTO \<in> set (columns d')"
proof -
  have 1: "format_loop (enumerate 0 (rows d)) d = Inr d'"
    using assms(1) by (simp add: format_df_def)
  have 2: "distinct (map fst (enumerate 0 (rows d)))" by simp
  have 3: "(i, rows d ! i) \<in> set (enumerate 0 (rows d))"
    using assms(2) by (simp add: in_set_enumerate_eq)
  show ?thesis by (rule format_loop_selected [OF 1 2 3 assms(2)])
qed

lemma fillna_value_twice [simp]: "fillna_value (fillna_value v) = fillna_value v"
  by (cases v) (simp_all add: fillna_value_def)

lemma fillna_value_RIN [simp]:
  "map_option fillna_value x = Some (Str RIN) \<longleftrightarrow> x = Some (Str RIN)"
  by (cases x) (auto simp add: fillna_value_def RIN_def split: pyval.splits)

lemma fillna_to_full_width:
  "fillna_value (to_full_width nfkc (fillna_value v)) = to_full_width nfkc (fillna_value v)"
  by (cases v) (simp_all add: fillna_value_def to_full_width_def)

lemma initial_rows:
  fixes d nfkc
  defines "d0 \<equiv> fillna (convert_explanation nfkc d)"
  shows "length (rows d0) = length (rows d)"
    and "set (columns d0) = set (columns d)"
    and "i < length (rows d) \<Longrightarrow> (rows d0 ! i) c =
      (if c = RINSHO_KAISETSU \<and> RINSHO_KAISETSU \<in> set (columns d)
       then Some (to_full_width nfkc (fillna_value (row_get (rows d ! i) RINSHO_KAISETSU NaN)))
       else map_option fillna_value ((rows d ! i) c))"
  by (auto simp add: d0_def fillna_def convert_explanation_def assign_def fillna_to_full_width)

lemma drop_columns_value:
  "i < length (rows d) \<Longrightarrow>
   (rows (drop_columns d cs) ! i) c = (if c \<in> set cs then None else (rows d ! i) c)"
  by (simp add: drop_columns_def restrict_map_def)

lemma move_assign_keeps:
  assumes "move_column (assign d c f) loc c = Inr d'" and "c \<in> W"
  shows "keeps W d d'"
proof -
  have "keeps W d (assign d c f)"
    by (rule keeps_mono [OF keeps_assign]) (simp add: assms(2))
  moreover have "keeps W (assign d c f) d'"
    by (rule keeps_mono [OF keeps_move_column [OF assms(1)]]) simp
  ultimately show ?thesis by (rule keeps_trans)
qed

lemma drop_timestamp_keeps: "keeps {TIMESTAMP} d (drop_timestamp d)"
  using keeps_drop_columns [of "[TIMESTAMP]" d] by (simp add: drop_timestamp_def keeps_refl)

lemma join_department_year_keeps:
  assumes "join_department_year d = Inr d'"
  shows "keeps {GAKUBU_GAKUNEN, GAKUBU, GAKUNEN} d d'"
proof (cases "GAKUBU \<in> set (columns d) \<and> GAKUNEN \<in> set (columns d)")
  case True
  let ?a = "assign d GAKUBU_GAKUNEN department_year"
  from assms True have m: "move_column (drop_columns ?a [GAKUBU, GAKUNEN]) 2 GAKUBU_GAKUNEN = Inr d'"
    by (simp add: join_department_year_def)
  have "keeps {GAKUBU_GAKUNEN, GAKUBU, GAKUNEN} d ?a"
    by (rule keeps_mono [OF keeps_assign]) simp
  moreover have "keeps {GAKUBU_GAKUNEN, GAKUBU, GAKUNEN} ?a (drop_columns ?a [GAKUBU, GAKUNEN])"
    by (rule keeps_mono [OF keeps_drop_columns]) auto
  moreover have "keeps {GAKUBU_GAKUNEN, GAKUBU, GAKUNEN} (drop_columns ?a [GAKUBU, GAKUNEN]) d'"
    by (rule keeps_mono [OF keeps_move_column [OF m]]) simp
  ultimately show ?thesis by (blast intro: keeps_trans)
next
  case False
  with assms show ?thesis by (auto simp add: join_department_year_def keeps_refl)
qed

lemma join_work_information_keeps:
  assumes "join_work_information d = Inr d'"
  shows "keeps {SAKUHIN_JOHO, SAKUHIN_KEISHIKI, SAKUHINMEI, SAKUSHAMEI} d d'"
proof (cases "SAKUHINMEI \<in> set (columns d) \<and> SAKUHIN_KEISHIKI \<in> set (columns d)")
  case True
  let ?a = "assign d SAKUHIN_JOHO combine_work_name"
  let ?cs = "filter (\<lambda>col. col \<in> set (columns ?a)) [SAKUHIN_KEISHIKI, SAKUHINMEI, SAKUSHAMEI]"
  from assms True have m: "move_column (drop_columns ?a ?cs) 3 SAKUHIN_JOHO = Inr d'"
    by (simp add: join_work_information_def Let_def)
  have "keeps {SAKUHIN_JOHO, SAKUHIN_KEISHIKI, SAKUHINMEI, SAKUSHAMEI} d ?a"
    by (rule keeps_mono [OF keeps_assign]) simp
  moreover have "keeps {SAKUHIN_JOHO, SAKUHIN_KEISHIKI, SAKUHINMEI, SAKUSHAMEI} ?a (drop_columns ?a ?cs)"
    by (rule keeps_mono [OF keeps_drop_columns]) auto
  moreover have "keeps {SAKUHIN_JOHO, SAKUHIN_KEISHIKI, SAKUHINMEI, SAKUSHAMEI} (drop_columns ?a ?cs) d'"
    by (rule keeps_mono [OF keeps_move_column [OF m]]) simp
  ultimately show ?thesis by (blast intro: keeps_trans)
next
  case False
  with assms show ?thesis by (auto simp add: join_work_information_def keeps_refl)
qed

lemma join_work_information_work_type:
  assumes "join_work_information d = Inr d'" and "i < length (rows d)"
  shows "(rows d' ! i) SAKUHIN_KEISHIKI = None
    \<or> (rows d' ! i) SAKUHIN_KEISHIKI = (rows d ! i) SAKUHIN_KEISHIKI"
proof (cases "SAKUHINMEI \<in> set (columns d) \<and> SAKUHIN_KEISHIKI \<in> set (columns d)")
  case True
  let ?a = "assign d SAKUHIN_JOHO combine_work_name"
  let ?cs = "filter (\<lambda>col. col \<in> set (columns ?a)) [SAKUHIN_KEISHIKI, SAKUHINMEI, SAKUSHAMEI]"
  from assms True have m: "move_column (drop_columns ?a ?cs) 3 SAKUHIN_JOHO = Inr d'"
    by (simp add: join_work_information_def Let_def)
  have k: "keeps {} (drop_columns ?a ?cs) d'" by (rule keeps_move_column [OF m])
  have l: "i < length (rows ?a)" using assms(2) by (simp add: assign_def)
  then have l2: "i < length (rows (drop_columns ?a ?cs))" by (simp add: drop_columns_def)
  have w: "SAKUHIN_KEISHIKI \<in> set ?cs" using True by (simp add: assign_def)
  have "(rows d' ! i) SAKUHIN_KEISHIKI = (rows (drop_columns ?a ?cs) ! i) SAKUHIN_KEISHIKI"
    using k l2 by (simp add: keeps_def)
  also have "\<dots> = None" using w by (simp only: drop_columns_value [OF l] if_True)
  finally show ?thesis by simp
next
  case False
  with assms show ?thesis by (auto simp add: join_work_information_def)
qed

lemma preprocess_data_steps:
  assumes "preprocess_data nfkc d = Inr d'"
  obtains da db dc dd de where
    "format_df (fillna (convert_explanation nfkc d)) = Inr da"
    "move_column (assign da SAKUHIN_JOHO_KAISETSU combine_work_name_for_exp) 0 SAKUHIN_JOHO_KAISETSU = Inr db"
    "join_department_year (drop_timestamp db) = Inr dc"
    "join_work_information dc = Inr dd"
    "move_column (assign dd FURIGANA hurigana) 5 FURIGANA = Inr de"
    "move_column (assign de SAITEISHUTSU resubmission) 4 SAITEISHUTSU = Inr d'"
  using assms unfolding preprocess_data_def then_do_Inr by blast

lemma preprocess_data_chain:
  assumes p: "preprocess_data nfkc d = Inr d'"
  obtains da dc dd where
    "format_df (fillna (convert_explanation nfkc d)) = Inr da"
    "keeps {SHAKUBUN, SAKUHINMEI, KOMENTO} (fillna (convert_explanation nfkc d)) da"
    "keeps {SAKUHIN_JOHO_KAISETSU, TIMESTAMP, GAKUBU_GAKUNEN, GAKUBU, GAKUNEN} da dc"
    "join_work_information dc = Inr dd"
    "keeps {SAKUHIN_JOHO, SAKUHIN_KEISHIKI, SAKUHINMEI, SAKUSHAMEI} dc dd"
    "keeps {FURIGANA, SAITEISHUTSU} dd d'"
proof -
  let ?d0 = "fillna (convert_explanation nfkc d)"
  let ?F = "{SHAKUBUN, SAKUHINMEI, KOMENTO}"
  let ?B = "{SAKUHIN_JOHO_KAISETSU, TIMESTAMP, GAKUBU_GAKUNEN, GAKUBU, GAKUNEN}"
  let ?E = "{FURIGANA, SAITEISHUTSU}"
  let ?D = "{SAKUHIN_JOHO, SAKUHIN_KEISHIKI, SAKUHINMEI, SAKUSHAMEI}"
  from p obtain da db dc dd de where
    a: "format_df ?d0 = Inr da"
    and b: "move_column (assign da SAKUHIN_JOHO_KAISETSU combine_work_name_for_exp) 0
          SAKUHIN_JOHO_KAISETSU = Inr db"
    and c: "join_department_year (drop_timestamp db) = Inr dc"
    and d: "join_work_information dc = Inr dd"
    and e: "move_column (assign dd FURIGANA hurigana) 5 FURIGANA = Inr de"
    and f: "move_column (assign de SAITEISHUTSU resubmission) 4 SAITEISHUTSU = Inr d'"
    by (rule preprocess_data_steps)
  have ka: "keeps ?F ?d0 da" by (rule format_df_keeps [OF a])
  have kb: "keeps ?B da db" by (rule move_assign_keeps [OF b]) simp
  have "keeps ?B db (drop_timestamp db)"
    by (rule keeps_mono [OF drop_timestamp_keeps]) simp
  moreover have "keeps ?B (drop_timestamp db) dc"
    by (rule keeps_mono [OF join_department_year_keeps [OF c]]) simp
  ultimately have kc: "keeps ?B db dc" by (rule keeps_trans)
  have kbc: "keeps ?B da dc" using kb kc by (rule keeps_trans)
  have kd: "keeps ?D dc dd" by (rule join_work_information_keeps [OF d])
  have "keeps ?E dd de" by (rule move_assign_keeps [OF e]) simp
  moreover have "keeps ?E de d'" by (rule move_assign_keeps [OF f]) simp
  ultimately have ke: "keeps ?E dd d'" by (rule keeps_trans)
  from a ka kbc d kd ke show ?thesis by (rule that)
qed

lemma preprocess_data_length:
  assumes "preprocess_data nfkc d = Inr d'"
  shows "length (rows d') = length (rows d)"
proof -
  from assms obtain da dc dd where
    "keeps {SHAKUBUN, SAKUHINMEI, KOMENTO} (fillna (convert_explanation nfkc d)) da"
    "keeps {SAKUHIN_JOHO_KAISETSU, TIMESTAMP, GAKUBU_GAKUNEN, GAKUBU, GAKUNEN} da dc"
    "keeps {SAKUHIN_JOHO, SAKUHIN_KEISHIKI, SAKUHINMEI, SAKUSHAMEI} dc dd"
    "keeps {FURIGANA, SAITEISHUTSU} dd d'"
    by (rule preprocess_data_chain)
  then show ?thesis using initial_rows(1) [of nfkc d] by (simp add: keeps_def)
qed

lemma preprocess_data_row:
  assumes p: "preprocess_data nfkc d = Inr d'" and i: "i < length (rows d)"
  shows "length (rows d') = length (rows d)"
    and "c \<notin> set PREPROCESSED_COLUMNS \<Longrightarrow>
      (c \<in> set (columns d') \<longleftrightarrow> c \<in> set (columns d))
      \<and> (rows d' ! i) c = map_option fillna_value ((rows d ! i) c)"
    and "(rows d' ! i) SHAKUBUN = map_option fillna_value
      (if (rows d ! i) SAKUHIN_KEISHIKI = Some (Str RIN) then (rows d ! i) SHAKUBUN_RINSHO
       else (rows d ! i) SHAKUBUN_SOSAKU)"
    and "(rows d' ! i) KOMENTO = map_option fillna_value
      (if (rows d ! i) SAKUHIN_KEISHIKI = Some (Str RIN) then (rows d ! i) KOMENTO_RINSHO
       else (rows d ! i) KOMENTO_SOSAKU)"
    and "SHAKUBUN \<in> set (columns d')" and "KOMENTO \<in> set (columns d')"
    and "(rows d' ! i) SAKUHIN_KEISHIKI = None
      \<or> (rows d' ! i) SAKUHIN_KEISHIKI = map_option fillna_value ((rows d ! i) SAKUHIN_KEISHIKI)"
    and "RINSHO_KAISETSU \<in> set (columns d') \<longleftrightarrow> RINSHO_KAISETSU \<in> set (columns d)"
    and "(rows d' ! i) RINSHO_KAISETSU =
      (if RINSHO_KAISETSU \<in> set (columns d)
       then Some (to_full_width nfkc (fillna_value (row_get (rows d ! i) RINSHO_KAISETSU NaN)))
       else map_option fillna_value ((rows d ! i) RINSHO_KAISETSU))"
proof -
  let ?d0 = "fillna (convert_explanation nfkc d)"
  let ?F = "{SHAKUBUN, SAKUHINMEI, KOMENTO}"
  let ?B = "{SAKUHIN_JOHO_KAISETSU, TIMESTAMP, GAKUBU_GAKUNEN, GAKUBU, GAKUNEN}"
  let ?E = "{FURIGANA, SAITEISHUTSU}"
  let ?D = "{SAKUHIN_JOHO, SAKUHIN_KEISHIKI, SAKUHINMEI, SAKUSHAMEI}"
  from p obtain da dc dd where
    a: "format_df ?d0 = Inr da" and ka: "keeps ?F ?d0 da" and kbc: "keeps ?B da dc"
    and d: "join_work_information dc = Inr dd" and kd: "keeps ?D dc dd" and ke: "keeps ?E dd d'"
    by (rule preprocess_data_chain)
  have l0: "length (rows ?d0) = length (rows d)" by (rule initial_rows)
  have i0: "i < length (rows ?d0)" using i l0 by simp
  have la: "length (rows da) = length (rows d)" using ka l0 by (simp add: keeps_def)
  have lc: "length (rows dc) = length (rows d)" using kbc la by (simp add: keeps_def)
  have ld: "length (rows dd) = length (rows d)" using kd lc by (simp add: keeps_def)
  show l': "length (rows d') = length (rows d)" using ke ld by (simp add: keeps_def)
  have post: "(rows d' ! i) x = (rows da ! i) x
      \<and> (x \<in> set (columns d') \<longleftrightarrow> x \<in> set (columns da))"
    if "x \<notin> ?B" "x \<notin> ?D" "x \<notin> ?E" for x
  proof -
    have "(rows dc ! i) x = (rows da ! i) x \<and> (x \<in> set (columns dc) \<longleftrightarrow> x \<in> set (columns da))"
      using kbc that(1) i la unfolding keeps_def by simp
    moreover have "(rows dd ! i) x = (rows dc ! i) x \<and> (x \<in> set (columns dd) \<longleftrightarrow> x \<in> set (columns dc))"
      using kd that(2) i lc unfolding keeps_def by simp
    moreover have "(rows d' ! i) x = (rows dd ! i) x \<and> (x \<in> set (columns d') \<longleftrightarrow> x \<in> set (columns dd))"
      using ke that(3) i ld unfolding keeps_def by simp
    ultimately show ?thesis by simp
  qed
  have pre: "(rows da ! i) x = (rows ?d0 ! i) x
      \<and> (x \<in> set (columns da) \<longleftrightarrow> x \<in> set (columns d))"
    if "x \<notin> ?F" for x
    using ka that i0 initial_rows(2) [of nfkc d] unfolding keeps_def by simp
  show "(c \<in> set (columns d') \<longleftrightarrow> c \<in> set (columns d))
      \<and> (rows d' ! i) c = map_option fillna_value ((rows d ! i) c)"
    if "c \<notin> set PREPROCESSED_COLUMNS"
  proof -
    from that have n: "c \<notin> ?B" "c \<notin> ?D" "c \<notin> ?E" "c \<notin> ?F" "c \<noteq> RINSHO_KAISETSU"
      by (simp_all add: PREPROCESSED_COLUMNS_def)
    from post [OF n(1-3)] pre [OF n(4)] initial_rows(3) [OF i, of nfkc c] n(5)
    show ?thesis by simp
  qed
  have sel: "(rows da ! i) SHAKUBUN =
      (if (rows ?d0 ! i) SAKUHIN_KEISHIKI = Some (Str RIN) then (rows ?d0 ! i) SHAKUBUN_RINSHO
       else (rows ?d0 ! i) SHAKUBUN_SOSAKU)
    \<and> (rows da ! i) KOMENTO =
      (if (rows ?d0 ! i) SAKUHIN_KEISHIKI = Some (Str RIN) then (rows ?d0 ! i) KOMENTO_RINSHO
       else (rows ?d0 ! i) KOMENTO_SOSAKU)
    \<and> SHAKUBUN \<in> set (columns da) \<and> KOMENTO \<in> set (columns da)"
    by (rule format_df_selected [OF a i0])
  have r0: "(rows ?d0 ! i) x = map_option fillna_value ((rows d ! i) x)"
    if "x \<noteq> RINSHO_KAISETSU" for x
    using initial_rows(3) [OF i, of nfkc x] that by simp
  have ne: "SAKUHIN_KEISHIKI \<noteq> RINSHO_KAISETSU" "SHAKUBUN_RINSHO \<noteq> RINSHO_KAISETSU"
    "SHAKUBUN_SOSAKU \<noteq> RINSHO_KAISETSU" "KOMENTO_RINSHO \<noteq> RINSHO_KAISETSU"
    "KOMENTO_SOSAKU \<noteq> RINSHO_KAISETSU"
    by (simp_all add: names)
  have pick: "(if (rows ?d0 ! i) SAKUHIN_KEISHIKI = Some (Str RIN) then (rows ?d0 ! i) x
       else (rows ?d0 ! i) y) =
      map_option fillna_value
        (if (rows d ! i) SAKUHIN_KEISHIKI = Some (Str RIN) then (rows d ! i) x else (rows d ! i) y)"
    if "x \<noteq> RINSHO_KAISETSU" "y \<noteq> RINSHO_KAISETSU" for x y
    unfolding r0 [OF that(1)] r0 [OF that(2)] r0 [OF ne(1)] fillna_value_RIN
    by (simp only: if_distrib [of "map_option fillna_value"])
  have ps: "SHAKUBUN \<notin> ?B" "SHAKUBUN \<notin> ?D" "SHAKUBUN \<notin> ?E"
    and pk: "KOMENTO \<notin> ?B" "KOMENTO \<notin> ?D" "KOMENTO \<notin> ?E"
    by (simp_all add: names)
  from sel have "(rows da ! i) SHAKUBUN =
      (if (rows ?d0 ! i) SAKUHIN_KEISHIKI = Some (Str RIN) then (rows ?d0 ! i) SHAKUBUN_RINSHO
       else (rows ?d0 ! i) SHAKUBUN_SOSAKU)"
    by (rule conjunct1)
  with post [OF ps]
  show "(rows d' ! i) SHAKUBUN = map_option fillna_value
      (if (rows d ! i) SAKUHIN_KEISHIKI = Some (Str RIN) then (rows d ! i) SHAKUBUN_RINSHO
       else (rows d ! i) SHAKUBUN_SOSAKU)"
    by (simp only: pick [OF ne(2) ne(3)])
  from sel have "(rows da ! i) KOMENTO =
      (if (rows ?d0 ! i) SAKUHIN_KEISHIKI = Some (Str RIN) then (rows ?d0 ! i) KOMENTO_RINSHO
       else (rows ?d0 ! i) KOMENTO_SOSAKU)"
    by (simp only:)
  with post [OF pk]
  show "(rows d' ! i) KOMENTO = map_option fillna_value
      (if (rows d ! i) SAKUHIN_KEISHIKI = Some (Str RIN) then (rows d ! i) KOMENTO_RINSHO
       else (rows d ! i) KOMENTO_SOSAKU)"
    by (simp only: pick [OF ne(4) ne(5)])
  show "SHAKUBUN \<in> set (columns d')" using post [OF ps] sel by simp
  show "KOMENTO \<in> set (columns d')" using post [OF pk] sel by simp
  have wf: "SAKUHIN_KEISHIKI \<notin> ?F" "SAKUHIN_KEISHIKI \<notin> ?B" "SAKUHIN_KEISHIKI \<notin> ?E"
    by (simp_all add: names)
  have "(rows dc ! i) SAKUHIN_KEISHIKI = (rows da ! i) SAKUHIN_KEISHIKI"
    using kbc wf(2) i la unfolding keeps_def by simp
  also have "\<dots> = map_option fillna_value ((rows d ! i) SAKUHIN_KEISHIKI)"
    using pre [OF wf(1)] by (simp add: r0 ne)
  finally have wc: "(rows dc ! i) SAKUHIN_KEISHIKI =
      map_option fillna_value ((rows d ! i) SAKUHIN_KEISHIKI)" .
  have "(rows d' ! i) SAKUHIN_KEISHIKI = (rows dd ! i) SAKUHIN_KEISHIKI"
    using ke wf(3) i ld unfolding keeps_def by simp
  with join_work_information_work_type [OF d, of i] i lc wc
  show "(rows d' ! i) SAKUHIN_KEISHIKI = None
      \<or> (rows d' ! i) SAKUHIN_KEISHIKI = map_option fillna_value ((rows d ! i) SAKUHIN_KEISHIKI)"
    by auto
  have pr: "RINSHO_KAISETSU \<notin> ?B" "RINSHO_KAISETSU \<notin> ?D" "RINSHO_KAISETSU \<notin> ?E"
    "RINSHO_KAISETSU \<notin> ?F"
    by (simp_all add: names)
  show "RINSHO_KAISETSU \<in> set (columns d') \<longleftrightarrow> RINSHO_KAISETSU \<in> set (columns d)"
    using post [OF pr(1-3)] pre [OF pr(4)] by simp
  show "(rows d' ! i) RINSHO_KAISETSU =
      (if RINSHO_KAISETSU \<in> set (columns d)
       then Some (to_full_width nfkc (fillna_value (row_get (rows d ! i) RINSHO_KAISETSU NaN)))
       else map_option fillna_value ((rows d ! i) RINSHO_KAISETSU))"
    using post [OF pr(1-3)] pre [OF pr(4)] initial_rows(3) [OF i, of nfkc RINSHO_KAISETSU]
    by simp
qed

lemmas example_defs =
  EXAMPLE_def EXAMPLE_COLUMNS_def EXAMPLE_ROW_0_def EXAMPLE_ROW_1_def
  EXAMPLE_ONCE_def EXAMPLE_ONCE_COLUMNS_def EXAMPLE_ONCE_ROW_0_def EXAMPLE_ONCE_ROW_1_def
  EXAMPLE_TWICE_def EXAMPLE_TWICE_COLUMNS_def EXAMPLE_TWICE_ROW_0_def EXAMPLE_TWICE_ROW_1_def

lemmas preprocess_defs =
  preprocess_data_def then_do_def convert_explanation_def fillna_def fillna_value_def
  format_df_def format_row_def at_set_def assign_def drop_columns_def move_column_def
  drop_timestamp_def join_department_year_def join_work_information_def
  combine_work_name_for_exp_def combine_work_name_def department_year_def hurigana_def
  resubmission_def row_get_def row_item_def str_or_empty_def Let_def restrict_map_def

lemma example_once: "preprocess_data nfkc_halfwidth_katakana EXAMPLE = Inr EXAMPLE_ONCE"
  by (simp add: preprocess_defs example_defs names SHIMEI_def fun_eq_iff
      to_full_width_Str full_width_char_def halfwidth_katakana_def nfkc_halfwidth_katakana_def
      HALFWIDTH_KATAKANA_MAPPING_def KATAKANA_COMPOSITION_def enumerate_eq_zip)

lemma example_twice: "preprocess_data nfkc_halfwidth_katakana EXAMPLE_ONCE = Inr EXAMPLE_TWICE"
  by (simp add: preprocess_defs example_defs names SHIMEI_def fun_eq_iff
      to_full_width_Str full_width_char_def halfwidth_katakana_def nfkc_halfwidth_katakana_def
      HALFWIDTH_KATAKANA_MAPPING_def KATAKANA_COMPOSITION_def enumerate_eq_zip)

lemma map_option_fillna_twice:
  "map_option fillna_value (map_option fillna_value x) = map_option fillna_value x"
  by (cases x) simp_all

text \<open>
  Claim C7, amended. When two applications of \<^verbatim>\<open>preprocess_data\<close> return, the second one
  leaves unchanged: every field in a column that the preprocessor neither assigns nor
  drops (the name, the variants of the transcription and of the comment, and so on); the
  explanation of the copied work, for a normaliser as in claim C10; and the selected
  transcription and comment of every row whose work type is not that of a copied work.
\<close>

theorem preprocess_data_twice:
  assumes "preprocess_data nfkc d = Inr d1" and "preprocess_data nfkc d1 = Inr d2"
  shows "(\<forall>c. c \<notin> set PREPROCESSED_COLUMNS \<longrightarrow> cell d2 i c = cell d1 i c)
    \<and> ((\<forall>r. r \<noteq> [] \<longrightarrow> list_all halfwidth_katakana r \<longrightarrow> list_all (\<lambda>c. \<not> half_width c) (nfkc r))
        \<longrightarrow> cell d2 i RINSHO_KAISETSU = cell d1 i RINSHO_KAISETSU)
    \<and> ((rows d ! i) SAKUHIN_KEISHIKI \<noteq> Some (Str RIN)
        \<longrightarrow> cell d2 i SHAKUBUN = cell d1 i SHAKUBUN \<and> cell d2 i KOMENTO = cell d1 i KOMENTO)"
proof (cases "i < length (rows d)")
  case False
  with preprocess_data_length [OF assms(1)] preprocess_data_length [OF assms(2)]
  show ?thesis by (simp add: cell_def)
next
  case i: True
  have l1: "length (rows d1) = length (rows d)" by (rule preprocess_data_length [OF assms(1)])
  have l2: "length (rows d2) = length (rows d1)" by (rule preprocess_data_length [OF assms(2)])
  from i l1 have i1: "i < length (rows d1)" by simp
  note r1 = preprocess_data_row [OF assms(1) i]
  note r2 = preprocess_data_row [OF assms(2) i1]
  have a: "cell d2 i c = cell d1 i c" if "c \<notin> set PREPROCESSED_COLUMNS" for c
    using r1(2) [OF that] r2(2) [OF that] l2
    by (simp add: cell_def map_option_fillna_twice)
  have b: "cell d2 i RINSHO_KAISETSU = cell d1 i RINSHO_KAISETSU"
    if h: "\<forall>r. r \<noteq> [] \<longrightarrow> list_all halfwidth_katakana r \<longrightarrow> list_all (\<lambda>c. \<not> half_width c) (nfkc r)"
  proof (cases "RINSHO_KAISETSU \<in> set (columns d)")
    case True
    let ?v = "to_full_width nfkc (fillna_value (row_get (rows d ! i) RINSHO_KAISETSU NaN))"
    from True r1(8) have c1: "RINSHO_KAISETSU \<in> set (columns d1)" by simp
    from True r1(9) have v1: "(rows d1 ! i) RINSHO_KAISETSU = Some ?v" by simp
    have "fillna_value ?v = ?v" by (rule fillna_to_full_width)
    moreover have "to_full_width nfkc ?v = ?v"
      by (rule to_full_width_twice) (simp add: h)
    ultimately have "(rows d2 ! i) RINSHO_KAISETSU = Some ?v"
      using c1 r2(9) v1 by (simp add: row_get_def)
    with v1 r2(8) l2 show ?thesis by (simp add: cell_def)
  next
    case False
    with r1(8) r2(8) show ?thesis by (simp add: cell_def)
  qed
  have c: "cell d2 i SHAKUBUN = cell d1 i SHAKUBUN \<and> cell d2 i KOMENTO = cell d1 i KOMENTO"
    if w: "(rows d ! i) SAKUHIN_KEISHIKI \<noteq> Some (Str RIN)"
  proof -
    have n: "SHAKUBUN_SOSAKU \<notin> set PREPROCESSED_COLUMNS" "KOMENTO_SOSAKU \<notin> set PREPROCESSED_COLUMNS"
      by (simp_all add: PREPROCESSED_COLUMNS_def names)
    from r1(7) w have w1: "(rows d1 ! i) SAKUHIN_KEISHIKI \<noteq> Some (Str RIN)"
      by (auto simp only: fillna_value_RIN)
    have "(rows d2 ! i) SHAKUBUN = map_option fillna_value ((rows d1 ! i) SHAKUBUN_SOSAKU)"
      using r2(3) w1 by simp
    also have "\<dots> = map_option fillna_value ((rows d ! i) SHAKUBUN_SOSAKU)"
      using r1(2) [OF n(1)] by (simp add: map_option_fillna_twice)
    also have "\<dots> = (rows d1 ! i) SHAKUBUN" using r1(3) w by simp
    finally have s: "(rows d2 ! i) SHAKUBUN = (rows d1 ! i) SHAKUBUN" .
    have "(rows d2 ! i) KOMENTO = map_option fillna_value ((rows d1 ! i) KOMENTO_SOSAKU)"
      using r2(4) w1 by simp
    also have "\<dots> = map_option fillna_value ((rows d ! i) KOMENTO_SOSAKU)"
      using r1(2) [OF n(2)] by (simp add: map_option_fillna_twice)
    also have "\<dots> = (rows d1 ! i) KOMENTO" using r1(4) w by simp
    finally have k: "(rows d2 ! i) KOMENTO = (rows d1 ! i) KOMENTO" .
    from s k r1(5,6) r2(5,6) l2 show ?thesis by (simp add: cell_def)
  qed
  from a b c show ?thesis by blast
qed

theorem preprocess_data_twice_witness:
  "preprocess_data nfkc_halfwidth_katakana EXAMPLE = Inr EXAMPLE_ONCE
   \<and> preprocess_data nfkc_halfwidth_katakana EXAMPLE_ONCE = Inr EXAMPLE_TWICE
   \<and> SHIMEI \<notin> set PREPROCESSED_COLUMNS
   \<and> cell EXAMPLE_ONCE 0 SHIMEI = Some (Str [0x5C71, 0x7530])
   \<and> cell EXAMPLE_TWICE 0 SHIMEI = cell EXAMPLE_ONCE 0 SHIMEI
   \<and> cell EXAMPLE_ONCE 0 RINSHO_KAISETSU = Some (Str [0xFF21, 0x3000, 0x30A2])
   \<and> cell EXAMPLE_TWICE 0 RINSHO_KAISETSU = cell EXAMPLE_ONCE 0 RINSHO_KAISETSU
   \<and> (rows EXAMPLE ! 1) SAKUHIN_KEISHIKI \<noteq> Some (Str RIN)
   \<and> cell EXAMPLE_ONCE 1 SHAKUBUN = Some (Str [0x3046])
   \<and> cell EXAMPLE_TWICE 1 SHAKUBUN = cell EXAMPLE_ONCE 1 SHAKUBUN
   \<and> cell EXAMPLE_ONCE 1 KOMENTO = Some (Str [0x3048])
   \<and> cell EXAMPLE_TWICE 1 KOMENTO = cell EXAMPLE_ONCE 1 KOMENTO"
proof -
  have n: "SHIMEI \<notin> set PREPROCESSED_COLUMNS"
    by (simp add: PREPROCESSED_COLUMNS_def names SHIMEI_def)
  have w: "(rows EXAMPLE ! 1) SAKUHIN_KEISHIKI \<noteq> Some (Str RIN)"
    by (simp add: example_defs names SHIMEI_def)
  have v: "cell EXAMPLE_ONCE 0 SHIMEI = Some (Str [0x5C71, 0x7530])"
    "cell EXAMPLE_ONCE 0 RINSHO_KAISETSU = Some (Str [0xFF21, 0x3000, 0x30A2])"
    "cell EXAMPLE_ONCE 1 SHAKUBUN = Some (Str [0x3046])"
    "cell EXAMPLE_ONCE 1 KOMENTO = Some (Str [0x3048])"
    by (simp_all add: cell_def example_defs names SHIMEI_def)
  from preprocess_data_twice [OF example_once example_twice, of 0]
    preprocess_data_twice [OF example_once example_twice, of 1]
    n w nfkc_halfwidth_katakana_full_width
  have "cell EXAMPLE_TWICE 0 SHIMEI = cell EXAMPLE_ONCE 0 SHIMEI"
    "cell EXAMPLE_TWICE 0 RINSHO_KAISETSU = cell EXAMPLE_ONCE 0 RINSHO_KAISETSU"
    "cell EXAMPLE_TWICE 1 SHAKUBUN = cell EXAMPLE_ONCE 1 SHAKUBUN"
    "cell EXAMPLE_TWICE 1 KOMENTO = cell EXAMPLE_ONCE 1 KOMENTO"
    by blast+
  with example_once example_twice n w v show ?thesis by (intro conjI)
qed

text \<open>
  Claim C7 fails on the selected fields of a copied work. The first application copies
  the transcription and the comment of the variant for copied works and drops the column
  of the work type; the second application then finds no work type and copies the
  variant for original works, which such a row leaves empty.
\<close>

theorem second_application_changes_selected_fields:
  "preprocess_data nfkc_halfwidth_katakana EXAMPLE = Inr EXAMPLE_ONCE
   \<and> preprocess_data nfkc_halfwidth_katakana EXAMPLE_ONCE = Inr EXAMPLE_TWICE
   \<and> cell EXAMPLE 0 SAKUHIN_KEISHIKI = Some (Str RIN)
   \<and> cell EXAMPLE 0 SHAKUBUN_RINSHO = Some (Str [0x3042])
   \<and> cell EXAMPLE_ONCE 0 SHAKUBUN = Some (Str [0x3042])
   \<and> cell EXAMPLE_TWICE 0 SHAKUBUN = Some (Str [])
   \<and> cell EXAMPLE 0 KOMENTO_RINSHO = Some (Str [0x3044])
   \<and> cell EXAMPLE_ONCE 0 KOMENTO = Some (Str [0x3044])
   \<and> cell EXAMPLE_TWICE 0 KOMENTO = Some (Str [])"
proof -
  have "cell EXAMPLE 0 SAKUHIN_KEISHIKI = Some (Str RIN)"
    "cell EXAMPLE 0 SHAKUBUN_RINSHO = Some (Str [0x3042])"
    "cell EXAMPLE_ONCE 0 SHAKUBUN = Some (Str [0x3042])"
    "cell EXAMPLE_TWICE 0 SHAKUBUN = Some (Str [])"
    "cell EXAMPLE 0 KOMENTO_RINSHO = Some (Str [0x3044])"
    "cell EXAMPLE_ONCE 0 KOMENTO = Some (Str [0x3044])"
    "cell EXAMPLE_TWICE 0 KOMENTO = Some (Str [])"
    by (simp_all add: cell_def example_defs names SHIMEI_def)
  with example_once example_twice show ?thesis by (intro conjI)
qed

end
